theory Spec2Isabelle
  imports Complex_Main "HOL-Library.Monad_Syntax" "HOL-Library.Multiset"
begin

section \<open>A two-layer ReLU network trained with numpy (Solutions/NN\_with\_numpy.ipynb)\<close>

text \<open>
  The notebook computes with two-dimensional numpy arrays. An array is modelled as the
  list of its rows, over the real numbers (the data model of the specification; the
  rounding of 64-bit floating point is outside this model, except for the cost, which
  is modelled a second time in binary64). Arrays of the notebook
  always have a positive number of rows and columns, which \<open>is_matrix\<close> records.
  An operation that numpy refuses (a \<open>dot\<close> of shapes that are not aligned, an
  elementwise operation or a boolean-mask assignment on unequal shapes) returns
  \<open>None\<close>. numpy would broadcast some unequal shapes; the notebook only ever meets
  equal ones, and the model does not broadcast.
\<close>

subsection \<open>Array operations\<close>

type_synonym matrix = "real list list"

definition nrows :: "'a list list \<Rightarrow> nat" where
  "nrows A = length A"

definition ncols :: "'a list list \<Rightarrow> nat" where
  "ncols A = (case A of [] \<Rightarrow> 0 | r # _ \<Rightarrow> length r)"

definition shape :: "'a list list \<Rightarrow> nat \<times> nat" where
  "shape A = (nrows A, ncols A)"

definition is_matrix :: "nat \<Rightarrow> nat \<Rightarrow> 'a list list \<Rightarrow> bool" where
  "is_matrix n m A \<longleftrightarrow> 0 < n \<and> 0 < m \<and> length A = n \<and> (\<forall>r \<in> set A. length r = m)"

text \<open>The array with \<open>n\<close> rows and \<open>m\<close> columns whose entry \<open>(i, j)\<close> is \<open>f i j\<close>.\<close>

definition mk_matrix :: "nat \<Rightarrow> nat \<Rightarrow> (nat \<Rightarrow> nat \<Rightarrow> 'a) \<Rightarrow> 'a list list" where
  "mk_matrix n m f = map (\<lambda>i. map (\<lambda>j. f i j) [0..<m]) [0..<n]"

text \<open>\<^verbatim>\<open>A.T\<close>\<close>

definition T :: "matrix \<Rightarrow> matrix" where
  "T A = map (\<lambda>j. map (\<lambda>r. r ! j) A) [0..<ncols A]"

definition inner :: "real list \<Rightarrow> real list \<Rightarrow> real" where
  "inner u v = sum_list (map2 (*) u v)"

definition mmul :: "matrix \<Rightarrow> matrix \<Rightarrow> matrix" where
  "mmul A B = map (\<lambda>r. map (inner r) (T B)) A"

text \<open>\<^verbatim>\<open>A.dot(B)\<close>: a ValueError when the shapes are not aligned.\<close>

definition dot :: "matrix \<Rightarrow> matrix \<Rightarrow> matrix option" where
  "dot A B = (if ncols A = nrows B then Some (mmul A B) else None)"

text \<open>\<^verbatim>\<open>np.maximum(A, c)\<close> with a scalar \<open>c\<close>\<close>

definition maximum :: "matrix \<Rightarrow> real \<Rightarrow> matrix" where
  "maximum A c = map (map (\<lambda>v. max v c)) A"

text \<open>\<^verbatim>\<open>A - B\<close> and the in-place \<^verbatim>\<open>A -= B\<close>\<close>

definition subtract :: "matrix \<Rightarrow> matrix \<Rightarrow> matrix option" where
  "subtract A B = (if shape A = shape B then Some (map2 (map2 (-)) A B) else None)"

text \<open>\<^verbatim>\<open>c * A\<close> with a scalar \<open>c\<close>\<close>

definition smult :: "real \<Rightarrow> matrix \<Rightarrow> matrix" where
  "smult c A = map (map ((*) c)) A"

text \<open>\<^verbatim>\<open>np.square(A)\<close> and \<^verbatim>\<open>A.sum()\<close>\<close>

definition square :: "matrix \<Rightarrow> matrix" where
  "square A = map (map (\<lambda>v. v * v)) A"

definition sum_all :: "matrix \<Rightarrow> real" where
  "sum_all A = sum_list (map sum_list A)"

text \<open>\<^verbatim>\<open>A < c\<close>, a boolean array, and \<^verbatim>\<open>G[M] = c\<close> for a boolean mask \<open>M\<close>
  (an IndexError when the mask has another shape).\<close>

definition less_m :: "matrix \<Rightarrow> real \<Rightarrow> bool list list" where
  "less_m A c = map (map (\<lambda>v. v < c)) A"

definition setitem_mask :: "matrix \<Rightarrow> bool list list \<Rightarrow> real \<Rightarrow> matrix option" where
  "setitem_mask G M c =
     (if shape G = shape M then Some (map2 (map2 (\<lambda>g b. if b then c else g)) G M) else None)"

subsection \<open>Cell 1: the constants\<close>

definition N :: nat where "N = 64"
definition D_in :: nat where "D_in = 1000"
definition H :: nat where "H = 100"
definition D_out :: nat where "D_out = 10"

text \<open>The arrays drawn by \<^verbatim>\<open>np.random.randn\<close> are inputs of the model; this is what
  their shapes are, for dimensions \<open>n\<close>, \<open>d\<close>, \<open>k\<close>, \<open>m\<close> (in the notebook
  \<open>N\<close>, \<open>D_in\<close>, \<open>H\<close>, \<open>D_out\<close>).\<close>

definition randn_shapes ::
  "nat \<Rightarrow> nat \<Rightarrow> nat \<Rightarrow> nat \<Rightarrow> matrix \<Rightarrow> matrix \<Rightarrow> matrix \<Rightarrow> matrix \<Rightarrow> matrix \<Rightarrow> matrix \<Rightarrow> bool" where
  "randn_shapes n d k m X0 Y0 W10 W20 XV YV \<longleftrightarrow>
     is_matrix n d X0 \<and> is_matrix n m Y0 \<and> is_matrix d k W10 \<and> is_matrix k m W20 \<and>
     is_matrix n d XV \<and> is_matrix n m YV"

subsection \<open>Cells 3 to 6: one step, written out\<close>

text \<open>Cell 3, the forward pass.\<close>

definition forward :: "matrix \<Rightarrow> matrix \<Rightarrow> matrix \<Rightarrow> (matrix \<times> matrix \<times> matrix) option" where
  "forward X W1 W2 = do {
     h \<leftarrow> dot X W1;
     let h_relu = maximum h 0;
     y_pred \<leftarrow> dot h_relu W2;
     Some (h, h_relu, y_pred)
   }"

text \<open>Cell 4, the cost \<^verbatim>\<open>np.square(y_pred - y).sum()\<close>.\<close>

definition cost_fn :: "matrix \<Rightarrow> matrix \<Rightarrow> real option" where
  "cost_fn y_pred Y = do {
     diff \<leftarrow> subtract y_pred Y;
     Some (sum_all (square diff))
   }"

text \<open>Cell 5, the backward pass.\<close>

definition backward ::
  "matrix \<Rightarrow> matrix \<Rightarrow> matrix \<Rightarrow> matrix \<Rightarrow> matrix \<Rightarrow> matrix \<Rightarrow> (matrix \<times> matrix) option" where
  "backward X Y W2 h h_relu y_pred = do {
     diff \<leftarrow> subtract y_pred Y;
     let grad_y_pred = smult 2 diff;
     grad_w2 \<leftarrow> dot (T h_relu) grad_y_pred;
     grad_h_relu \<leftarrow> dot grad_y_pred (T W2);
     let grad_h = grad_h_relu;
     grad_h \<leftarrow> setitem_mask grad_h (less_m h 0) 0;
     grad_w1 \<leftarrow> dot (T X) grad_h;
     Some (grad_w1, grad_w2)
   }"

text \<open>Cell 6, the update of one weight matrix: \<^verbatim>\<open>w -= learning_rate * grad_w\<close>.\<close>

definition update :: "real \<Rightarrow> matrix \<Rightarrow> matrix \<Rightarrow> matrix option" where
  "update lr W G = subtract W (smult lr G)"

text \<open>The training loss of given weights (cells 3 and 4), the gradients of given
  weights (cells 3 and 5), and one step of gradient descent with a learning rate
  \<open>lr\<close> (cells 3, 5 and 6).\<close>

definition training_loss :: "matrix \<Rightarrow> matrix \<Rightarrow> matrix \<Rightarrow> matrix \<Rightarrow> real option" where
  "training_loss X Y W1 W2 = do {
     (h, h_relu, y_pred) \<leftarrow> forward X W1 W2;
     cost_fn y_pred Y
   }"


definition gd_step ::
  "real \<Rightarrow> matrix \<Rightarrow> matrix \<Rightarrow> matrix \<Rightarrow> matrix \<Rightarrow> (matrix \<times> matrix) option" where
  "gd_step lr X Y W1 W2 = do {
     (h, h_relu, y_pred) \<leftarrow> forward X W1 W2;
     (grad_w1, grad_w2) \<leftarrow> backward X Y W2 h h_relu y_pred;
     W1 \<leftarrow> update lr W1 grad_w1;
     W2 \<leftarrow> update lr W2 grad_w2;
     Some (W1, W2)
   }"

subsection \<open>Cell 7: the training loop\<close>

text \<open>The variables of the notebook that are alive in the loop and after it. The
  arrays and numbers that the body computes on the way (\<open>h\<close>, \<open>y_pred\<close>,
  \<open>loss\<close>, the gradients) are bound in the body.\<close>

record state =
  x :: matrix
  y :: matrix
  w1 :: matrix
  w2 :: matrix
  learning_rate :: real
  x_val :: matrix
  y_val :: matrix
  cost :: "real list"
  counter :: "nat list"
  cost_val :: "real list"

text \<open>The body of the loop, in the order of the source.\<close>

definition body :: "nat \<Rightarrow> state \<Rightarrow> state option" where
  "body t s = do {
     h \<leftarrow> dot (x s) (w1 s);
     let h_relu = maximum h 0;
     y_pred \<leftarrow> dot h_relu (w2 s);
     diff \<leftarrow> subtract y_pred (y s);
     let loss = sum_all (square diff);
     let s = s\<lparr>cost := cost s @ [loss]\<rparr>;
     let s = s\<lparr>counter := counter s @ [t]\<rparr>;
     h_val \<leftarrow> dot (x_val s) (w1 s);
     let h_relu_val = maximum h_val 0;
     y_pred_val \<leftarrow> dot h_relu_val (w2 s);
     diff_val \<leftarrow> subtract y_pred_val (y_val s);
     let loss_val = sum_all (square diff_val);
     let s = s\<lparr>cost_val := cost_val s @ [loss_val]\<rparr>;
     diff \<leftarrow> subtract y_pred (y s);
     let grad_y_pred = smult 2 diff;
     grad_w2 \<leftarrow> dot (T h_relu) grad_y_pred;
     grad_h_relu \<leftarrow> dot grad_y_pred (T (w2 s));
     let grad_h = grad_h_relu;
     grad_h \<leftarrow> setitem_mask grad_h (less_m h 0) 0;
     grad_w1 \<leftarrow> dot (T (x s)) grad_h;
     W1 \<leftarrow> subtract (w1 s) (smult (learning_rate s) grad_w1);
     let s = s\<lparr>w1 := W1\<rparr>;
     W2 \<leftarrow> subtract (w2 s) (smult (learning_rate s) grad_w2);
     let s = s\<lparr>w2 := W2\<rparr>;
     Some s
   }"

text \<open>\<^verbatim>\<open>for t in ts: body\<close>\<close>

fun for_loop :: "nat list \<Rightarrow> state \<Rightarrow> state option" where
  "for_loop [] s = Some s"
| "for_loop (t # ts) s = (case body t s of None \<Rightarrow> None | Some s' \<Rightarrow> for_loop ts s')"

definition niteration :: nat where "niteration = 500"

text \<open>The loop \<^verbatim>\<open>for t in range(niteration)\<close>, and its first \<open>k\<close> iterations.\<close>

definition iterations :: "nat \<Rightarrow> state \<Rightarrow> state option" where
  "iterations k s = for_loop [0..<k] s"

definition training_loop :: "state \<Rightarrow> state option" where
  "training_loop s = iterations niteration s"

subsection \<open>The notebook, cell after cell\<close>

text \<open>The state in which the loop is entered: the cells 1 to 6 have run, in this order,
  and cell 7 has drawn the validation set and emptied the three lists.\<close>

definition loop_entry ::
  "matrix \<Rightarrow> matrix \<Rightarrow> matrix \<Rightarrow> matrix \<Rightarrow> matrix \<Rightarrow> matrix \<Rightarrow> state option" where
  "loop_entry X0 Y0 W10 W20 XV YV = do {
     let lr = 1 / 10 ^ 6;
     (h, h_relu, y_pred) \<leftarrow> forward X0 W10 W20;
     c \<leftarrow> cost_fn y_pred Y0;
     (grad_w1, grad_w2) \<leftarrow> backward X0 Y0 W20 h h_relu y_pred;
     W1 \<leftarrow> update lr W10 grad_w1;
     W2 \<leftarrow> update lr W20 grad_w2;
     Some \<lparr>x = X0, y = Y0, w1 = W1, w2 = W2, learning_rate = lr,
           x_val = XV, y_val = YV, cost = [], counter = [], cost_val = []\<rparr>
   }"

definition notebook ::
  "matrix \<Rightarrow> matrix \<Rightarrow> matrix \<Rightarrow> matrix \<Rightarrow> matrix \<Rightarrow> matrix \<Rightarrow> state option" where
  "notebook X0 Y0 W10 W20 XV YV = do {
     s \<leftarrow> loop_entry X0 Y0 W10 W20 XV YV;
     training_loop s
   }"

text \<open>The shapes of the arrays of a state.\<close>

definition shapes :: "nat \<Rightarrow> nat \<Rightarrow> nat \<Rightarrow> nat \<Rightarrow> state \<Rightarrow> bool" where
  "shapes n d k m s \<longleftrightarrow>
     is_matrix n d (x s) \<and> is_matrix n m (y s) \<and> is_matrix d k (w1 s) \<and> is_matrix k m (w2 s) \<and>
     is_matrix n d (x_val s) \<and> is_matrix n m (y_val s)"

subsection \<open>The cost in 64-bit floating point\<close>

text \<open>
  numpy arrays of \<^verbatim>\<open>float64\<close> hold IEEE 754 binary64 numbers: a value is a finite
  number, \<open>+inf\<close>, \<open>-inf\<close> or NaN (the two zeros are not told apart: they compare equal,
  and no operation of the cost distinguishes them). The result of an operation on
  finite numbers is the exact result rounded to the nearest binary64 number, to the
  one with an even significand in a tie, and to an infinity when the rounded result
  reaches \<open>2 powi 1024\<close>. The binary64 numbers with the exponent \<open>e\<close>, from \<open>- 1022\<close> to
  \<open>1023\<close>, are the multiples of \<open>2 powi (e - 52)\<close>; the subnormal numbers have the
  exponent \<open>- 1022\<close>.
\<close>

datatype f64 = Finite real | PlusInf | MinusInf | NaN

definition exponent64 :: "real \<Rightarrow> int" where
  "exponent64 r = Max (insert (- 1022) {e \<in> {- 1022..1023}. 2 powi e \<le> \<bar>r\<bar>})"

definition round_even :: "real \<Rightarrow> int" where
  "round_even q = (let n = \<lfloor>q\<rfloor>; f = q - of_int n in
     if f < 1 / 2 then n else if 1 / 2 < f then n + 1 else if even n then n else n + 1)"

definition round64 :: "real \<Rightarrow> f64" where
  "round64 r = (let u = 2 powi (exponent64 r - 52); v = of_int (round_even (r / u)) * u in
     if 2 powi 1024 \<le> \<bar>v\<bar> then (if 0 < v then PlusInf else MinusInf) else Finite v)"

text \<open>Addition, subtraction and multiplication, with the infinities and NaN.\<close>

fun fadd :: "f64 \<Rightarrow> f64 \<Rightarrow> f64" where
  "fadd (Finite a) (Finite b) = round64 (a + b)"
| "fadd NaN _ = NaN"
| "fadd _ NaN = NaN"
| "fadd PlusInf MinusInf = NaN"
| "fadd MinusInf PlusInf = NaN"
| "fadd PlusInf _ = PlusInf"
| "fadd MinusInf _ = MinusInf"
| "fadd _ PlusInf = PlusInf"
| "fadd _ MinusInf = MinusInf"

fun fsub :: "f64 \<Rightarrow> f64 \<Rightarrow> f64" where
  "fsub (Finite a) (Finite b) = round64 (a - b)"
| "fsub NaN _ = NaN"
| "fsub _ NaN = NaN"
| "fsub PlusInf PlusInf = NaN"
| "fsub MinusInf MinusInf = NaN"
| "fsub PlusInf _ = PlusInf"
| "fsub MinusInf _ = MinusInf"
| "fsub _ PlusInf = MinusInf"
| "fsub _ MinusInf = PlusInf"

fun fmul :: "f64 \<Rightarrow> f64 \<Rightarrow> f64" where
  "fmul (Finite a) (Finite b) = round64 (a * b)"
| "fmul NaN _ = NaN"
| "fmul _ NaN = NaN"
| "fmul PlusInf (Finite b) = (if b = 0 then NaN else if 0 < b then PlusInf else MinusInf)"
| "fmul MinusInf (Finite b) = (if b = 0 then NaN else if 0 < b then MinusInf else PlusInf)"
| "fmul (Finite a) PlusInf = (if a = 0 then NaN else if 0 < a then PlusInf else MinusInf)"
| "fmul (Finite a) MinusInf = (if a = 0 then NaN else if 0 < a then MinusInf else PlusInf)"
| "fmul PlusInf PlusInf = PlusInf"
| "fmul MinusInf MinusInf = PlusInf"
| "fmul PlusInf MinusInf = MinusInf"
| "fmul MinusInf PlusInf = MinusInf"

text \<open>\<^verbatim>\<open>np.isfinite\<close>\<close>

fun isfinite :: "f64 \<Rightarrow> bool" where
  "isfinite (Finite _) = True"
| "isfinite _ = False"

text \<open>\<^verbatim>\<open>A - B\<close> and \<^verbatim>\<open>np.square(A)\<close> on arrays of binary64 numbers.\<close>

definition subtract64 :: "f64 list list \<Rightarrow> f64 list list \<Rightarrow> f64 list list option" where
  "subtract64 A B = (if shape A = shape B then Some (map2 (map2 fsub) A B) else None)"

definition square64 :: "f64 list list \<Rightarrow> f64 list list" where
  "square64 A = map (map (\<lambda>v. fmul v v)) A"

text \<open>\<^verbatim>\<open>A.sum()\<close> adds all elements of the array. numpy does not add them from left to
  right: the order of the additions (pairwise summation, in blocks) depends on the
  size of the array and on the build, and every addition rounds. \<open>sum64 A L\<close> says
  that \<open>L\<close> is the result of adding the elements of \<open>A\<close> in some order; the sum of
  no element is 0.\<close>

inductive sum64 :: "f64 multiset \<Rightarrow> f64 \<Rightarrow> bool" where
  empty: "sum64 {#} (Finite 0)"
| single: "sum64 {#v#} v"
| add: "sum64 A a \<Longrightarrow> sum64 B b \<Longrightarrow> sum64 (A + B) (fadd a b)"

code_pred sum64 .

text \<open>The cost \<^verbatim>\<open>np.square(y_pred - y).sum()\<close> of cell 4 and of the training loop, in
  binary64: \<open>cost_fn64 y_pred Y L\<close> says that the expression returns \<open>L\<close>.\<close>

definition cost_fn64 :: "f64 list list \<Rightarrow> f64 list list \<Rightarrow> f64 \<Rightarrow> bool" where
  "cost_fn64 y_pred Y L =
     (case subtract64 y_pred Y of
        None \<Rightarrow> False
      | Some diff \<Rightarrow> sum64 (mset (concat (square64 diff))) L)"

subsection \<open>The reference definition of the specification\<close>

text \<open>
  The specification gives the forward pass, the loss, the backward pass and the update
  rule as matrix equations. They are written here on matrices as functions from a row
  and a column index to an entry, with the matrix product and the transpose of
  linear algebra; the first argument of \<open>ref_prod\<close> is the common dimension.
\<close>

type_synonym rmat = "nat \<Rightarrow> nat \<Rightarrow> real"

definition entries :: "matrix \<Rightarrow> rmat" where
  "entries A = (\<lambda>i j. A ! i ! j)"

definition ref_prod :: "nat \<Rightarrow> rmat \<Rightarrow> rmat \<Rightarrow> rmat" where
  "ref_prod p A B = (\<lambda>i j. \<Sum>l<p. A i l * B l j)"

definition ref_tr :: "rmat \<Rightarrow> rmat" where
  "ref_tr A = (\<lambda>i j. A j i)"

text \<open>Forward pass: \<open>H = X \<cdot> W1\<close>, \<open>H_relu = max(H, 0)\<close>, \<open>Y_pred = H_relu \<cdot> W2\<close>.\<close>

definition ref_relu :: "rmat \<Rightarrow> rmat" where
  "ref_relu A = (\<lambda>i j. max (A i j) 0)"

definition ref_Y_pred :: "nat \<Rightarrow> nat \<Rightarrow> rmat \<Rightarrow> rmat \<Rightarrow> rmat \<Rightarrow> rmat" where
  "ref_Y_pred d k X W1 W2 = ref_prod k (ref_relu (ref_prod d X W1)) W2"

text \<open>Loss: the sum over all elements of \<open>(Y_pred - Y)\<^sup>2\<close>.\<close>

definition ref_loss :: "nat \<Rightarrow> nat \<Rightarrow> rmat \<Rightarrow> rmat \<Rightarrow> real" where
  "ref_loss n m Y_pred Y = (\<Sum>i<n. \<Sum>j<m. (Y_pred i j - Y i j)\<^sup>2)"

text \<open>Backward pass, steps 1 to 5, for \<open>n\<close> examples, \<open>d\<close> input features, \<open>k\<close>
  hidden units and \<open>m\<close> outputs.\<close>

definition ref_grad_Y_pred :: "rmat \<Rightarrow> rmat \<Rightarrow> rmat" where
  "ref_grad_Y_pred Y_pred Y = (\<lambda>i j. 2 * (Y_pred i j - Y i j))"

definition ref_grad_W2 :: "nat \<Rightarrow> rmat \<Rightarrow> rmat \<Rightarrow> rmat" where
  "ref_grad_W2 n H_relu grad_Y_pred = ref_prod n (ref_tr H_relu) grad_Y_pred"

definition ref_grad_H_relu :: "nat \<Rightarrow> rmat \<Rightarrow> rmat \<Rightarrow> rmat" where
  "ref_grad_H_relu m grad_Y_pred W2 = ref_prod m grad_Y_pred (ref_tr W2)"

definition ref_grad_H :: "rmat \<Rightarrow> rmat \<Rightarrow> rmat" where
  "ref_grad_H grad_H_relu Hm = (\<lambda>i j. if Hm i j < 0 then 0 else grad_H_relu i j)"

definition ref_grad_W1 :: "nat \<Rightarrow> rmat \<Rightarrow> rmat \<Rightarrow> rmat" where
  "ref_grad_W1 n X grad_H = ref_prod n (ref_tr X) grad_H"

text \<open>The two gradients as functions of the data and the weights.\<close>

definition ref_grads :: "nat \<Rightarrow> nat \<Rightarrow> nat \<Rightarrow> nat \<Rightarrow> rmat \<Rightarrow> rmat \<Rightarrow> rmat \<Rightarrow> rmat \<Rightarrow> rmat \<times> rmat" where
  "ref_grads n d k m X Y W1 W2 =
     (let Hm = ref_prod d X W1;
          H_relu = ref_relu Hm;
          Y_pred = ref_prod k H_relu W2;
          grad_Y_pred = ref_grad_Y_pred Y_pred Y;
          grad_W2 = ref_grad_W2 n H_relu grad_Y_pred;
          grad_H_relu = ref_grad_H_relu m grad_Y_pred W2;
          grad_H = ref_grad_H grad_H_relu Hm;
          grad_W1 = ref_grad_W1 n X grad_H
      in (grad_W1, grad_W2))"

text \<open>Update rule: \<open>W \<leftarrow> W - lr \<cdot> grad_W\<close>.\<close>

definition ref_update :: "real \<Rightarrow> rmat \<Rightarrow> rmat \<Rightarrow> rmat" where
  "ref_update lr W grad_W = (\<lambda>i j. W i j - lr * grad_W i j)"

text \<open>One iteration of the training loop, as the specification describes it: the
  training loss and the validation loss of the current weights are appended to their
  histories, and the weights are updated with the gradients of the training data.\<close>

definition ref_iteration :: "nat \<Rightarrow> nat \<Rightarrow> nat \<Rightarrow> nat \<Rightarrow> nat \<Rightarrow> state \<Rightarrow> state" where
  "ref_iteration n d k m t s =
     s\<lparr>cost := cost s @
         [ref_loss n m (ref_Y_pred d k (entries (x s)) (entries (w1 s)) (entries (w2 s))) (entries (y s))],
       counter := counter s @ [t],
       cost_val := cost_val s @
         [ref_loss n m (ref_Y_pred d k (entries (x_val s)) (entries (w1 s)) (entries (w2 s)))
            (entries (y_val s))],
       w1 := mk_matrix d k (ref_update (learning_rate s) (entries (w1 s))
               (fst (ref_grads n d k m (entries (x s)) (entries (y s)) (entries (w1 s)) (entries (w2 s))))),
       w2 := mk_matrix k m (ref_update (learning_rate s) (entries (w2 s))
               (snd (ref_grads n d k m (entries (x s)) (entries (y s)) (entries (w1 s)) (entries (w2 s)))))\<rparr>"

fun ref_run :: "nat \<Rightarrow> nat \<Rightarrow> nat \<Rightarrow> nat \<Rightarrow> nat \<Rightarrow> state \<Rightarrow> state" where
  "ref_run n d k m 0 s = s"
| "ref_run n d k m (Suc j) s = ref_iteration n d k m j (ref_run n d k m j s)"

section \<open>Arrays and their entries\<close>

lemma is_matrix_shape:
  assumes "is_matrix n m A"
  shows "nrows A = n" and "ncols A = m" and "shape A = (n, m)"
  using assms by (auto simp: is_matrix_def nrows_def ncols_def shape_def split: list.splits)

lemma is_matrix_nth: "is_matrix n m A \<Longrightarrow> i < n \<Longrightarrow> length (A ! i) = m"
  by (simp add: is_matrix_def)

lemma is_matrix_pos: "is_matrix n m A \<Longrightarrow> 0 < n \<and> 0 < m"
  by (simp add: is_matrix_def)

lemma mk_matrix_is_matrix: "0 < n \<Longrightarrow> 0 < m \<Longrightarrow> is_matrix n m (mk_matrix n m f)"
  by (auto simp: is_matrix_def mk_matrix_def)

lemma mk_matrix_nth: "i < n \<Longrightarrow> j < m \<Longrightarrow> mk_matrix n m f ! i ! j = f i j"
  by (simp add: mk_matrix_def)

lemma mk_matrix_cong:
  "(\<And>i j. i < n \<Longrightarrow> j < m \<Longrightarrow> f i j = g i j) \<Longrightarrow> mk_matrix n m f = mk_matrix n m g"
  by (simp add: mk_matrix_def)

lemma mk_matrix_eqI:
  assumes "is_matrix n m A"
  shows "A = mk_matrix n m (\<lambda>i j. A ! i ! j)"
proof (rule nth_equalityI)
  show "length A = length (mk_matrix n m (\<lambda>i j. A ! i ! j))"
    using assms by (simp add: is_matrix_def mk_matrix_def)
next
  fix i assume "i < length A"
  then have i: "i < n" using assms by (simp add: is_matrix_def)
  then have "length (A ! i) = m" using assms by (simp add: is_matrix_def)
  then show "A ! i = mk_matrix n m (\<lambda>i j. A ! i ! j) ! i"
    using i by (auto simp: mk_matrix_def intro: nth_equalityI)
qed

lemma matrix_eqI:
  assumes "is_matrix n m A" "is_matrix n m B"
    and "\<And>i j. i < n \<Longrightarrow> j < m \<Longrightarrow> A ! i ! j = B ! i ! j"
  shows "A = B"
proof -
  have "A = mk_matrix n m (\<lambda>i j. A ! i ! j)" by (rule mk_matrix_eqI [OF assms(1)])
  also have "\<dots> = mk_matrix n m (\<lambda>i j. B ! i ! j)" by (rule mk_matrix_cong) (rule assms(3))
  also have "\<dots> = B" by (rule mk_matrix_eqI [OF assms(2), symmetric])
  finally show ?thesis .
qed

lemma T_mk: 
  assumes "is_matrix n m A"
  shows "T A = mk_matrix m n (\<lambda>i j. A ! j ! i)"
proof -
  have "map (\<lambda>r. r ! j) A = map (\<lambda>i. A ! i ! j) [0..<n]" for j
    using assms by (auto simp: is_matrix_def intro!: nth_equalityI)
  then show ?thesis
    using assms by (simp add: T_def mk_matrix_def is_matrix_shape)
qed


lemma T_is_matrix: "is_matrix n m A \<Longrightarrow> is_matrix m n (T A)"
  by (simp add: T_mk mk_matrix_is_matrix is_matrix_pos)

lemma T_nth: "is_matrix n m A \<Longrightarrow> i < n \<Longrightarrow> j < m \<Longrightarrow> T A ! j ! i = A ! i ! j"
  by (simp add: T_mk mk_matrix_nth)

lemma inner_sum: "length u = m \<Longrightarrow> length v = m \<Longrightarrow> inner u v = (\<Sum>l<m. u ! l * v ! l)"
proof -
  assume a: "length u = m" "length v = m"
  have "inner u v = (\<Sum>l = 0..<length (map2 (*) u v). map2 (*) u v ! l)"
    unfolding inner_def by (rule sum_list_sum_nth)
  also have "\<dots> = (\<Sum>l<m. u ! l * v ! l)"
    using a by (intro sum.cong) auto
  finally show ?thesis .
qed

lemma mmul_mk:
  assumes "is_matrix n m A" "is_matrix m k B"
  shows "mmul A B = mk_matrix n k (\<lambda>i j. \<Sum>l<m. A ! i ! l * B ! l ! j)"
proof (rule matrix_eqI [of n k])
  have pos: "0 < n" "0 < k" using assms by (simp_all add: is_matrix_def)
  show "is_matrix n k (mk_matrix n k (\<lambda>i j. \<Sum>l<m. A ! i ! l * B ! l ! j))"
    by (rule mk_matrix_is_matrix [OF pos])
  have TB: "is_matrix k m (T B)" by (rule T_is_matrix [OF assms(2)])
  show "is_matrix n k (mmul A B)"
    using assms(1) TB by (simp add: is_matrix_def mmul_def)
  fix i j assume ij: "i < n" "j < k"
  have "mmul A B ! i ! j = inner (A ! i) (T B ! j)"
    using ij assms(1) TB by (simp add: mmul_def is_matrix_def)
  also have "\<dots> = (\<Sum>l<m. A ! i ! l * T B ! j ! l)"
    using ij assms(1) TB by (intro inner_sum) (simp_all add: is_matrix_def)
  also have "\<dots> = (\<Sum>l<m. A ! i ! l * B ! l ! j)"
    using ij by (intro sum.cong) (simp_all add: T_nth [OF assms(2)])
  finally show "mmul A B ! i ! j = mk_matrix n k (\<lambda>i j. \<Sum>l<m. A ! i ! l * B ! l ! j) ! i ! j"
    using ij by (simp add: mk_matrix_nth)
qed

lemma dot_mk:
  assumes "is_matrix n m A" "is_matrix m k B"
  shows "dot A B = Some (mk_matrix n k (\<lambda>i j. \<Sum>l<m. A ! i ! l * B ! l ! j))"
  using assms by (simp add: dot_def is_matrix_shape mmul_mk)

lemma map_map_mk:
  assumes "is_matrix n m A"
  shows "map (map f) A = mk_matrix n m (\<lambda>i j. f (A ! i ! j))"
proof (rule matrix_eqI [of n m])
  show "is_matrix n m (map (map f) A)" using assms by (auto simp: is_matrix_def)
  show "is_matrix n m (mk_matrix n m (\<lambda>i j. f (A ! i ! j)))"
    using assms by (simp add: mk_matrix_is_matrix is_matrix_pos)
  fix i j assume "i < n" "j < m"
  then show "map (map f) A ! i ! j = mk_matrix n m (\<lambda>i j. f (A ! i ! j)) ! i ! j"
    using assms by (simp add: mk_matrix_nth is_matrix_def)
qed

lemma map2_map2_mk:
  assumes "is_matrix n m A" "is_matrix n m B"
  shows "map2 (map2 f) A B = mk_matrix n m (\<lambda>i j. f (A ! i ! j) (B ! i ! j))"
proof (rule matrix_eqI [of n m])
  show "is_matrix n m (map2 (map2 f) A B)"
    using assms by (simp add: is_matrix_def all_set_conv_all_nth)
  show "is_matrix n m (mk_matrix n m (\<lambda>i j. f (A ! i ! j) (B ! i ! j)))"
    using assms by (simp add: mk_matrix_is_matrix is_matrix_pos)
  fix i j assume "i < n" "j < m"
  then show "map2 (map2 f) A B ! i ! j = mk_matrix n m (\<lambda>i j. f (A ! i ! j) (B ! i ! j)) ! i ! j"
    using assms by (simp add: mk_matrix_nth is_matrix_def)
qed

lemma maximum_mk: "is_matrix n m A \<Longrightarrow> maximum A c = mk_matrix n m (\<lambda>i j. max (A ! i ! j) c)"
  unfolding maximum_def by (rule map_map_mk)

lemma smult_mk: "is_matrix n m A \<Longrightarrow> smult c A = mk_matrix n m (\<lambda>i j. c * A ! i ! j)"
  unfolding smult_def by (rule map_map_mk)

lemma square_mk: "is_matrix n m A \<Longrightarrow> square A = mk_matrix n m (\<lambda>i j. (A ! i ! j)\<^sup>2)"
  unfolding square_def power2_eq_square by (rule map_map_mk)

lemma less_m_mk: "is_matrix n m A \<Longrightarrow> less_m A c = mk_matrix n m (\<lambda>i j. A ! i ! j < c)"
  unfolding less_m_def by (rule map_map_mk)

lemma subtract_mk:
  "is_matrix n m A \<Longrightarrow> is_matrix n m B \<Longrightarrow>
   subtract A B = Some (mk_matrix n m (\<lambda>i j. A ! i ! j - B ! i ! j))"
  by (simp add: subtract_def is_matrix_shape map2_map2_mk)

lemma setitem_mask_mk:
  "is_matrix n m G \<Longrightarrow> is_matrix n m M \<Longrightarrow>
   setitem_mask G M c = Some (mk_matrix n m (\<lambda>i j. if M ! i ! j then c else G ! i ! j))"
  by (simp add: setitem_mask_def is_matrix_shape map2_map2_mk)

lemma sum_all_sum:
  assumes "is_matrix n m A"
  shows "sum_all A = (\<Sum>i<n. \<Sum>j<m. A ! i ! j)"
proof -
  have "sum_all A = (\<Sum>i = 0..<length (map sum_list A). map sum_list A ! i)"
    unfolding sum_all_def by (rule sum_list_sum_nth)
  also have "\<dots> = (\<Sum>i<n. sum_list (A ! i))"
    using assms by (intro sum.cong) (auto simp: is_matrix_def)
  also have "\<dots> = (\<Sum>i<n. \<Sum>j<m. A ! i ! j)"
  proof (rule sum.cong [OF refl])
    fix i assume "i \<in> {..<n}"
    then have "length (A ! i) = m" using assms by (simp add: is_matrix_def)
    then show "sum_list (A ! i) = (\<Sum>j<m. A ! i ! j)"
      by (simp add: sum_list_sum_nth atLeast0LessThan)
  qed
  finally show ?thesis .
qed

text \<open>The operations on arrays that are given by their entries.\<close>

lemma entries_mk: "is_matrix n m A \<Longrightarrow> A = mk_matrix n m (entries A)"
  unfolding entries_def by (rule mk_matrix_eqI)

lemma mk_nth_cong:
  "mk_matrix n m (\<lambda>i j. f i j (mk_matrix n m F ! i ! j)) = mk_matrix n m (\<lambda>i j. f i j (F i j))"
  by (rule mk_matrix_cong) (simp add: mk_matrix_nth)

lemma T_mk2: "0 < n \<Longrightarrow> 0 < m \<Longrightarrow> T (mk_matrix n m F) = mk_matrix m n (ref_tr F)"
  by (simp add: T_mk [OF mk_matrix_is_matrix] ref_tr_def mk_matrix_nth cong: mk_matrix_cong)

lemma dot_mk2:
  assumes "0 < n" "0 < m" "0 < k"
  shows "dot (mk_matrix n m F) (mk_matrix m k G) = Some (mk_matrix n k (ref_prod m F G))"
proof -
  have "dot (mk_matrix n m F) (mk_matrix m k G) =
      Some (mk_matrix n k (\<lambda>i j. \<Sum>l<m. mk_matrix n m F ! i ! l * mk_matrix m k G ! l ! j))"
    by (rule dot_mk) (simp_all add: mk_matrix_is_matrix assms)
  also have "mk_matrix n k (\<lambda>i j. \<Sum>l<m. mk_matrix n m F ! i ! l * mk_matrix m k G ! l ! j)
      = mk_matrix n k (ref_prod m F G)"
    unfolding ref_prod_def by (rule mk_matrix_cong) (simp add: mk_matrix_nth)
  finally show ?thesis .
qed

lemma maximum_mk2:
  "0 < n \<Longrightarrow> 0 < m \<Longrightarrow> maximum (mk_matrix n m F) 0 = mk_matrix n m (ref_relu F)"
  by (simp add: maximum_mk [OF mk_matrix_is_matrix] ref_relu_def mk_matrix_nth cong: mk_matrix_cong)

lemma smult_mk2:
  "0 < n \<Longrightarrow> 0 < m \<Longrightarrow> smult c (mk_matrix n m F) = mk_matrix n m (\<lambda>i j. c * F i j)"
  by (simp add: smult_mk [OF mk_matrix_is_matrix] mk_matrix_nth cong: mk_matrix_cong)

lemma square_mk2:
  "0 < n \<Longrightarrow> 0 < m \<Longrightarrow> square (mk_matrix n m F) = mk_matrix n m (\<lambda>i j. (F i j)\<^sup>2)"
  by (simp add: square_mk [OF mk_matrix_is_matrix] mk_matrix_nth cong: mk_matrix_cong)

lemma less_m_mk2:
  "0 < n \<Longrightarrow> 0 < m \<Longrightarrow> less_m (mk_matrix n m F) c = mk_matrix n m (\<lambda>i j. F i j < c)"
  by (simp add: less_m_mk [OF mk_matrix_is_matrix] mk_matrix_nth cong: mk_matrix_cong)

lemma subtract_mk2:
  "0 < n \<Longrightarrow> 0 < m \<Longrightarrow>
   subtract (mk_matrix n m F) (mk_matrix n m G) = Some (mk_matrix n m (\<lambda>i j. F i j - G i j))"
  by (simp add: subtract_mk [OF mk_matrix_is_matrix mk_matrix_is_matrix] mk_matrix_nth
      cong: mk_matrix_cong)

lemma setitem_mask_mk2:
  "0 < n \<Longrightarrow> 0 < m \<Longrightarrow>
   setitem_mask (mk_matrix n m G) (mk_matrix n m M) c =
     Some (mk_matrix n m (\<lambda>i j. if M i j then c else G i j))"
  by (simp add: setitem_mask_mk [OF mk_matrix_is_matrix mk_matrix_is_matrix])
    (rule mk_matrix_cong, simp add: mk_matrix_nth)

lemma sum_all_mk2:
  "0 < n \<Longrightarrow> 0 < m \<Longrightarrow> sum_all (mk_matrix n m F) = (\<Sum>i<n. \<Sum>j<m. F i j)"
  by (simp add: sum_all_sum [OF mk_matrix_is_matrix] mk_matrix_nth)

lemmas mk_ops = T_mk2 dot_mk2 maximum_mk2 smult_mk2 square_mk2 less_m_mk2 subtract_mk2
  setitem_mask_mk2 sum_all_mk2

lemma forward_mk:
  assumes "0 < n" "0 < d" "0 < k" "0 < m"
  shows "forward (mk_matrix n d X) (mk_matrix d k W1) (mk_matrix k m W2) =
    Some (mk_matrix n k (ref_prod d X W1), mk_matrix n k (ref_relu (ref_prod d X W1)),
          mk_matrix n m (ref_Y_pred d k X W1 W2))"
  using assms by (simp add: forward_def mk_ops ref_Y_pred_def)

lemma cost_fn_mk:
  assumes "0 < n" "0 < m"
  shows "cost_fn (mk_matrix n m P) (mk_matrix n m Y) = Some (ref_loss n m P Y)"
  using assms by (simp add: cost_fn_def mk_ops ref_loss_def)

lemma backward_mk:
  assumes "0 < n" "0 < d" "0 < k" "0 < m"
  shows "backward (mk_matrix n d X) (mk_matrix n m Y) (mk_matrix k m W2)
           (mk_matrix n k (ref_prod d X W1)) (mk_matrix n k (ref_relu (ref_prod d X W1)))
           (mk_matrix n m (ref_Y_pred d k X W1 W2)) =
    Some (mk_matrix d k (fst (ref_grads n d k m X Y W1 W2)),
          mk_matrix k m (snd (ref_grads n d k m X Y W1 W2)))"
  using assms
  by (simp add: backward_def mk_ops ref_grads_def Let_def ref_grad_W1_def ref_grad_W2_def
      ref_grad_H_relu_def ref_grad_H_def ref_grad_Y_pred_def ref_Y_pred_def)

lemma update_mk:
  assumes "0 < n" "0 < m"
  shows "update lr (mk_matrix n m W) (mk_matrix n m G) = Some (mk_matrix n m (ref_update lr W G))"
  using assms by (simp add: update_def mk_ops ref_update_def)

section \<open>One iteration and the loop\<close>

lemma body_mk:
  assumes "0 < n" "0 < d" "0 < k" "0 < m"
  shows "body t \<lparr>x = mk_matrix n d X, y = mk_matrix n m Y, w1 = mk_matrix d k W1,
                  w2 = mk_matrix k m W2, learning_rate = lr, x_val = mk_matrix n d XV,
                  y_val = mk_matrix n m YV, cost = c, counter = ct, cost_val = cv\<rparr> =
    Some \<lparr>x = mk_matrix n d X, y = mk_matrix n m Y,
          w1 = mk_matrix d k (ref_update lr W1 (fst (ref_grads n d k m X Y W1 W2))),
          w2 = mk_matrix k m (ref_update lr W2 (snd (ref_grads n d k m X Y W1 W2))),
          learning_rate = lr, x_val = mk_matrix n d XV, y_val = mk_matrix n m YV,
          cost = c @ [ref_loss n m (ref_Y_pred d k X W1 W2) Y],
          counter = ct @ [t],
          cost_val = cv @ [ref_loss n m (ref_Y_pred d k XV W1 W2) YV]\<rparr>"
  using assms
  by (simp add: body_def mk_ops ref_grads_def Let_def ref_grad_W1_def ref_grad_W2_def
      ref_grad_H_relu_def ref_grad_H_def ref_grad_Y_pred_def ref_Y_pred_def ref_loss_def
      ref_update_def)

lemma shapes_state:
  assumes "shapes n d k m s"
  shows "s = \<lparr>x = mk_matrix n d (entries (x s)), y = mk_matrix n m (entries (y s)),
              w1 = mk_matrix d k (entries (w1 s)), w2 = mk_matrix k m (entries (w2 s)),
              learning_rate = learning_rate s, x_val = mk_matrix n d (entries (x_val s)),
              y_val = mk_matrix n m (entries (y_val s)), cost = cost s, counter = counter s,
              cost_val = cost_val s\<rparr>"
  using assms by (cases s) (simp add: shapes_def entries_mk [symmetric])

lemma shapes_pos: "shapes n d k m s \<Longrightarrow> 0 < n \<and> 0 < d \<and> 0 < k \<and> 0 < m"
  by (auto simp: shapes_def is_matrix_def)

lemma body_shapes:
  assumes "shapes n d k m s"
  shows "body t s = Some (ref_iteration n d k m t s)"
proof -
  note pos = shapes_pos [OF assms]
  define s0 where "s0 = \<lparr>x = mk_matrix n d (entries (x s)), y = mk_matrix n m (entries (y s)),
              w1 = mk_matrix d k (entries (w1 s)), w2 = mk_matrix k m (entries (w2 s)),
              learning_rate = learning_rate s, x_val = mk_matrix n d (entries (x_val s)),
              y_val = mk_matrix n m (entries (y_val s)), cost = cost s, counter = counter s,
              cost_val = cost_val s\<rparr>"
  have eq: "s = s0" unfolding s0_def by (rule shapes_state [OF assms])
  have "body t s0 = Some \<lparr>x = mk_matrix n d (entries (x s)), y = mk_matrix n m (entries (y s)),
          w1 = mk_matrix d k (ref_update (learning_rate s) (entries (w1 s))
                 (fst (ref_grads n d k m (entries (x s)) (entries (y s)) (entries (w1 s)) (entries (w2 s))))),
          w2 = mk_matrix k m (ref_update (learning_rate s) (entries (w2 s))
                 (snd (ref_grads n d k m (entries (x s)) (entries (y s)) (entries (w1 s)) (entries (w2 s))))),
          learning_rate = learning_rate s, x_val = mk_matrix n d (entries (x_val s)),
          y_val = mk_matrix n m (entries (y_val s)),
          cost = cost s @ [ref_loss n m (ref_Y_pred d k (entries (x s)) (entries (w1 s)) (entries (w2 s))) (entries (y s))],
          counter = counter s @ [t],
          cost_val = cost_val s @ [ref_loss n m (ref_Y_pred d k (entries (x_val s)) (entries (w1 s)) (entries (w2 s))) (entries (y_val s))]\<rparr>"
    unfolding s0_def using pos by (intro body_mk) simp_all
  also have "\<dots> = Some (ref_iteration n d k m t s)"
    using assms by (cases s) (simp add: ref_iteration_def shapes_def entries_mk [symmetric])
  finally show ?thesis by (simp only: eq [symmetric])
qed

lemma ref_iteration_shapes:
  assumes "shapes n d k m s"
  shows "shapes n d k m (ref_iteration n d k m t s)"
  using assms shapes_pos [OF assms]
  by (simp add: shapes_def ref_iteration_def mk_matrix_is_matrix)

lemma for_loop_append:
  "for_loop (ts @ us) s = (case for_loop ts s of None \<Rightarrow> None | Some s' \<Rightarrow> for_loop us s')"
  by (induction ts arbitrary: s) (auto split: option.splits)

lemma iterations_0: "iterations 0 s = Some s"
  by (simp add: iterations_def)

lemma iterations_Suc:
  "iterations (Suc j) s = (case iterations j s of None \<Rightarrow> None | Some s' \<Rightarrow> body j s')"
  by (simp add: iterations_def for_loop_append split: option.splits)

lemma iterations_add:
  "iterations (j + r) s =
     (case iterations j s of None \<Rightarrow> None | Some s' \<Rightarrow> for_loop [j..<j + r] s')"
proof -
  have "[0..<j + r] = [0..<j] @ [j..<j + r]"
    by (metis le_add1 upt_add_eq_append zero_le)
  then show ?thesis by (simp add: iterations_def for_loop_append)
qed

lemma ref_run_shapes: "shapes n d k m s \<Longrightarrow> shapes n d k m (ref_run n d k m j s)"
  by (induction j) (simp_all add: ref_iteration_shapes)

lemma iterations_shapes:
  assumes "shapes n d k m s"
  shows "iterations j s = Some (ref_run n d k m j s)"
proof (induction j)
  case 0
  show ?case by (simp add: iterations_0)
next
  case (Suc j)
  then show ?case
    by (simp add: iterations_Suc body_shapes [OF ref_run_shapes [OF assms]])
qed

lemma ref_iteration_frame:
  "x (ref_iteration n d k m t s) = x s" "y (ref_iteration n d k m t s) = y s"
  "x_val (ref_iteration n d k m t s) = x_val s" "y_val (ref_iteration n d k m t s) = y_val s"
  "learning_rate (ref_iteration n d k m t s) = learning_rate s"
  by (simp_all add: ref_iteration_def)

lemma ref_run_frame:
  "x (ref_run n d k m j s) = x s" "y (ref_run n d k m j s) = y s"
  "x_val (ref_run n d k m j s) = x_val s" "y_val (ref_run n d k m j s) = y_val s"
  "learning_rate (ref_run n d k m j s) = learning_rate s"
  by (induction j) (simp_all add: ref_iteration_frame)

lemma ref_run_counter: "counter (ref_run n d k m j s) = counter s @ [0..<j]"
  by (induction j) (simp_all add: ref_iteration_def)

lemma ref_run_cost_length: "length (cost (ref_run n d k m j s)) = length (cost s) + j"
  by (induction j) (simp_all add: ref_iteration_def)

lemma ref_run_cost_val_length: "length (cost_val (ref_run n d k m j s)) = length (cost_val s) + j"
  by (induction j) (simp_all add: ref_iteration_def)

lemma loop_entry_mk:
  assumes "0 < n" "0 < d" "0 < k" "0 < m"
  shows "loop_entry (mk_matrix n d X) (mk_matrix n m Y) (mk_matrix d k W1) (mk_matrix k m W2) XV YV =
    Some \<lparr>x = mk_matrix n d X, y = mk_matrix n m Y,
          w1 = mk_matrix d k (ref_update (1 / 10 ^ 6) W1 (fst (ref_grads n d k m X Y W1 W2))),
          w2 = mk_matrix k m (ref_update (1 / 10 ^ 6) W2 (snd (ref_grads n d k m X Y W1 W2))),
          learning_rate = 1 / 10 ^ 6, x_val = XV, y_val = YV,
          cost = [], counter = [], cost_val = []\<rparr>"
  using assms
  by (simp add: loop_entry_def forward_mk cost_fn_mk backward_mk update_mk Let_def)

lemma gd_step_mk:
  assumes "0 < n" "0 < d" "0 < k" "0 < m"
  shows "gd_step lr (mk_matrix n d X) (mk_matrix n m Y) (mk_matrix d k W1) (mk_matrix k m W2) =
    Some (mk_matrix d k (ref_update lr W1 (fst (ref_grads n d k m X Y W1 W2))),
          mk_matrix k m (ref_update lr W2 (snd (ref_grads n d k m X Y W1 W2))))"
  using assms
  by (simp add: gd_step_def forward_mk backward_mk update_mk)


lemma randn_shapes_pos:
  "randn_shapes n d k m X0 Y0 W10 W20 XV YV \<Longrightarrow> 0 < n \<and> 0 < d \<and> 0 < k \<and> 0 < m"
  by (auto simp: randn_shapes_def is_matrix_def)

text \<open>The state at the entry of the loop, for arrays of the right shapes.\<close>

lemma loop_entry_shapes:
  assumes "randn_shapes n d k m X0 Y0 W10 W20 XV YV"
  shows "loop_entry X0 Y0 W10 W20 XV YV =
    Some \<lparr>x = X0, y = Y0,
          w1 = mk_matrix d k (ref_update (1 / 10 ^ 6) (entries W10)
                 (fst (ref_grads n d k m (entries X0) (entries Y0) (entries W10) (entries W20)))),
          w2 = mk_matrix k m (ref_update (1 / 10 ^ 6) (entries W20)
                 (snd (ref_grads n d k m (entries X0) (entries Y0) (entries W10) (entries W20)))),
          learning_rate = 1 / 10 ^ 6, x_val = XV, y_val = YV,
          cost = [], counter = [], cost_val = []\<rparr>"
proof -
  note pos = randn_shapes_pos [OF assms]
  have m: "X0 = mk_matrix n d (entries X0)" "Y0 = mk_matrix n m (entries Y0)"
    "W10 = mk_matrix d k (entries W10)" "W20 = mk_matrix k m (entries W20)"
    using assms by (simp_all add: randn_shapes_def entries_mk [symmetric])
  have "loop_entry (mk_matrix n d (entries X0)) (mk_matrix n m (entries Y0))
          (mk_matrix d k (entries W10)) (mk_matrix k m (entries W20)) XV YV =
    Some \<lparr>x = mk_matrix n d (entries X0), y = mk_matrix n m (entries Y0),
          w1 = mk_matrix d k (ref_update (1 / 10 ^ 6) (entries W10)
                 (fst (ref_grads n d k m (entries X0) (entries Y0) (entries W10) (entries W20)))),
          w2 = mk_matrix k m (ref_update (1 / 10 ^ 6) (entries W20)
                 (snd (ref_grads n d k m (entries X0) (entries Y0) (entries W10) (entries W20)))),
          learning_rate = 1 / 10 ^ 6, x_val = XV, y_val = YV,
          cost = [], counter = [], cost_val = []\<rparr>"
    using pos by (intro loop_entry_mk) simp_all
  then show ?thesis by (simp only: m [symmetric])
qed

lemma loop_entry_state_shapes:
  assumes "randn_shapes n d k m X0 Y0 W10 W20 XV YV"
    and "loop_entry X0 Y0 W10 W20 XV YV = Some s"
  shows "shapes n d k m s"
  using assms randn_shapes_pos [OF assms(1)]
  by (auto simp: loop_entry_shapes [OF assms(1)] shapes_def randn_shapes_def mk_matrix_is_matrix)

section \<open>The loss\<close>

lemma ref_loss_nonneg: "0 \<le> ref_loss n m P Y"
  unfolding ref_loss_def by (intro sum_nonneg) simp

lemma ref_loss_zero_iff:
  "ref_loss n m P Y = 0 \<longleftrightarrow> (\<forall>i<n. \<forall>j<m. P i j = Y i j)"
proof -
  have inner: "0 \<le> (\<Sum>j<m. (P i j - Y i j)\<^sup>2)" for i
    by (intro sum_nonneg) simp
  have "ref_loss n m P Y = 0 \<longleftrightarrow> (\<forall>i\<in>{..<n}. (\<Sum>j<m. (P i j - Y i j)\<^sup>2) = 0)"
    unfolding ref_loss_def using inner by (subst sum_nonneg_eq_0_iff) auto
  also have "\<dots> \<longleftrightarrow> (\<forall>i\<in>{..<n}. \<forall>j\<in>{..<m}. (P i j - Y i j)\<^sup>2 = 0)"
    by (subst sum_nonneg_eq_0_iff) auto
  also have "\<dots> \<longleftrightarrow> (\<forall>i<n. \<forall>j<m. P i j = Y i j)"
    by auto
  finally show ?thesis .
qed

section \<open>The cells on arrays of the right shapes\<close>

lemma forward_entries:
  assumes "is_matrix n d X" "is_matrix d k W1" "is_matrix k m W2"
  shows "forward X W1 W2 =
    Some (mk_matrix n k (ref_prod d (entries X) (entries W1)),
          mk_matrix n k (ref_relu (ref_prod d (entries X) (entries W1))),
          mk_matrix n m (ref_Y_pred d k (entries X) (entries W1) (entries W2)))"
proof -
  have pos: "0 < n" "0 < d" "0 < k" "0 < m" using assms by (simp_all add: is_matrix_def)
  have "forward (mk_matrix n d (entries X)) (mk_matrix d k (entries W1)) (mk_matrix k m (entries W2)) =
    Some (mk_matrix n k (ref_prod d (entries X) (entries W1)),
          mk_matrix n k (ref_relu (ref_prod d (entries X) (entries W1))),
          mk_matrix n m (ref_Y_pred d k (entries X) (entries W1) (entries W2)))"
    by (rule forward_mk [OF pos])
  then show ?thesis
    by (simp only: entries_mk [OF assms(1), symmetric] entries_mk [OF assms(2), symmetric]
        entries_mk [OF assms(3), symmetric])
qed

lemma cost_fn_entries:
  assumes "0 < n" "is_matrix n m Y"
  shows "cost_fn (mk_matrix n m P) Y = Some (ref_loss n m P (entries Y))"
proof -
  have pos: "0 < m" using assms by (simp add: is_matrix_def)
  have "cost_fn (mk_matrix n m P) (mk_matrix n m (entries Y)) = Some (ref_loss n m P (entries Y))"
    by (rule cost_fn_mk [OF assms(1) pos])
  then show ?thesis by (simp only: entries_mk [OF assms(2), symmetric])
qed

lemma training_loss_entries:
  assumes "is_matrix n d X" "is_matrix n m Y" "is_matrix d k W1" "is_matrix k m W2"
  shows "training_loss X Y W1 W2 =
    Some (ref_loss n m (ref_Y_pred d k (entries X) (entries W1) (entries W2)) (entries Y))"
proof -
  have pos: "0 < n" using assms by (simp add: is_matrix_def)
  show ?thesis
    by (simp add: training_loss_def forward_entries [OF assms(1,3,4)] cost_fn_entries [OF pos assms(2)])
qed

lemma backward_entries:
  assumes "is_matrix n d X" "is_matrix n m Y" "is_matrix d k W1" "is_matrix k m W2"
  shows "backward X Y W2 (mk_matrix n k (ref_prod d (entries X) (entries W1)))
           (mk_matrix n k (ref_relu (ref_prod d (entries X) (entries W1))))
           (mk_matrix n m (ref_Y_pred d k (entries X) (entries W1) (entries W2))) =
    Some (mk_matrix d k (fst (ref_grads n d k m (entries X) (entries Y) (entries W1) (entries W2))),
          mk_matrix k m (snd (ref_grads n d k m (entries X) (entries Y) (entries W1) (entries W2))))"
proof -
  have pos: "0 < n" "0 < d" "0 < k" "0 < m" using assms by (simp_all add: is_matrix_def)
  have "backward (mk_matrix n d (entries X)) (mk_matrix n m (entries Y)) (mk_matrix k m (entries W2))
           (mk_matrix n k (ref_prod d (entries X) (entries W1)))
           (mk_matrix n k (ref_relu (ref_prod d (entries X) (entries W1))))
           (mk_matrix n m (ref_Y_pred d k (entries X) (entries W1) (entries W2))) =
    Some (mk_matrix d k (fst (ref_grads n d k m (entries X) (entries Y) (entries W1) (entries W2))),
          mk_matrix k m (snd (ref_grads n d k m (entries X) (entries Y) (entries W1) (entries W2))))"
    by (rule backward_mk [OF pos])
  then show ?thesis
    by (simp only: entries_mk [OF assms(1), symmetric] entries_mk [OF assms(2), symmetric]
        entries_mk [OF assms(4), symmetric])
qed

lemma update_entries:
  assumes "is_matrix n m W"
  shows "update lr W (mk_matrix n m G) = Some (mk_matrix n m (ref_update lr (entries W) G))"
proof -
  have pos: "0 < n" "0 < m" using assms by (simp_all add: is_matrix_def)
  have "update lr (mk_matrix n m (entries W)) (mk_matrix n m G) =
      Some (mk_matrix n m (ref_update lr (entries W) G))"
    by (rule update_mk [OF pos])
  then show ?thesis by (simp only: entries_mk [OF assms, symmetric])
qed

lemma gd_step_entries:
  assumes "is_matrix n d X" "is_matrix n m Y" "is_matrix d k W1" "is_matrix k m W2"
  shows "gd_step lr X Y W1 W2 =
    Some (mk_matrix d k (ref_update lr (entries W1)
            (fst (ref_grads n d k m (entries X) (entries Y) (entries W1) (entries W2)))),
          mk_matrix k m (ref_update lr (entries W2)
            (snd (ref_grads n d k m (entries X) (entries Y) (entries W1) (entries W2)))))"
  by (simp add: gd_step_def forward_entries [OF assms(1,3,4)] backward_entries [OF assms]
      update_entries [OF assms(3)] update_entries [OF assms(4)])

section \<open>The histories\<close>



lemma training_loop_split:
  assumes "t < niteration"
  shows "training_loop s =
    (case iterations (Suc t) s of None \<Rightarrow> None | Some s' \<Rightarrow> for_loop [Suc t..<niteration] s')"
proof -
  have "niteration = Suc t + (niteration - Suc t)" using assms by simp
  then show ?thesis
    unfolding training_loop_def
    by (metis iterations_add)
qed

section \<open>The run of the training loop\<close>

lemma notebook_shapes:
  assumes "randn_shapes n d k m X0 Y0 W10 W20 XV YV"
  shows "\<exists>s0. loop_entry X0 Y0 W10 W20 XV YV = Some s0 \<and> shapes n d k m s0 \<and>
     cost s0 = [] \<and> counter s0 = [] \<and> cost_val s0 = [] \<and> learning_rate s0 = 1 / 10 ^ 6 \<and>
     x s0 = X0 \<and> y s0 = Y0 \<and> x_val s0 = XV \<and> y_val s0 = YV \<and>
     notebook X0 Y0 W10 W20 XV YV = Some (ref_run n d k m niteration s0)"
proof -
  obtain s0 where s0: "loop_entry X0 Y0 W10 W20 XV YV = Some s0"
    by (simp add: loop_entry_shapes [OF assms])
  have sh: "shapes n d k m s0" by (rule loop_entry_state_shapes [OF assms s0])
  have "notebook X0 Y0 W10 W20 XV YV = Some (ref_run n d k m niteration s0)"
    by (simp add: notebook_def s0 training_loop_def iterations_shapes [OF sh])
  moreover have "cost s0 = [] \<and> counter s0 = [] \<and> cost_val s0 = [] \<and>
     learning_rate s0 = 1 / 10 ^ 6 \<and> x s0 = X0 \<and> y s0 = Y0 \<and> x_val s0 = XV \<and> y_val s0 = YV"
    using s0 unfolding loop_entry_shapes [OF assms] by auto
  ultimately show ?thesis using s0 sh by blast
qed

text \<open>
  C8: the training loop runs its body exactly 500 times, for \<open>t = 0, \<dots>, 499\<close>, and
  returns; nothing stops it earlier. After it the history of the training loss and
  the history of the validation loss have exactly 500 entries each.
\<close>

theorem training_loop_500_iterations:
  assumes "randn_shapes n d k m X0 Y0 W10 W20 XV YV"
  shows "niteration = 500 \<and>
    (\<exists>sf. notebook X0 Y0 W10 W20 XV YV = Some sf \<and> counter sf = [0..<500] \<and>
          length (cost sf) = 500 \<and> length (cost_val sf) = 500)"
proof -
  obtain s0 where s0: "cost s0 = []" "counter s0 = []" "cost_val s0 = []"
    "notebook X0 Y0 W10 W20 XV YV = Some (ref_run n d k m niteration s0)"
    using notebook_shapes [OF assms] by blast
  have "counter (ref_run n d k m niteration s0) = [0..<500]"
    "length (cost (ref_run n d k m niteration s0)) = 500"
    "length (cost_val (ref_run n d k m niteration s0)) = 500"
    by (simp_all add: ref_run_counter ref_run_cost_length ref_run_cost_val_length s0 niteration_def)
  then show ?thesis using s0(4) by (simp add: niteration_def)
qed

theorem training_loop_500_iterations_witness:
  "randn_shapes 1 2 2 1 [[1, 2]] [[0]] [[1, -1], [0, 1]] [[1], [1]] [[2, 1]] [[1]] \<and>
   (niteration = 500 \<and>
    (\<exists>sf. notebook [[1, 2]] [[0]] [[1, -1], [0, 1]] [[1], [1]] [[2, 1]] [[1]] = Some sf \<and>
          counter sf = [0..<500] \<and> length (cost sf) = 500 \<and> length (cost_val sf) = 500))"
proof -
  have h: "randn_shapes 1 2 2 1 [[1, 2]] [[0]] [[1, -1], [0, 1]] [[1], [1]] [[2, 1]] [[1]]"
    by (simp add: randn_shapes_def is_matrix_def)
  show ?thesis by (rule conjI [OF h training_loop_500_iterations [OF h]])
qed

text \<open>
  C10: after every iteration \<open>t\<close> of the training loop (counted from 0), the three
  recorded sequences \<open>cost\<close>, \<open>counter\<close> and \<open>cost_val\<close> have length \<open>t + 1\<close>, and
  \<open>counter\<close> is the sequence \<open>0, 1, \<dots>, t\<close>. The state after iteration \<open>t\<close> is the
  one from which the remaining iterations finish the loop.
\<close>

theorem histories_after_every_iteration:
  assumes "randn_shapes n d k m X0 Y0 W10 W20 XV YV" and "t < niteration"
  shows "\<exists>s0 st. loop_entry X0 Y0 W10 W20 XV YV = Some s0 \<and> iterations (Suc t) s0 = Some st \<and>
     training_loop s0 = for_loop [Suc t..<niteration] st \<and>
     length (cost st) = t + 1 \<and> length (counter st) = t + 1 \<and> length (cost_val st) = t + 1 \<and>
     counter st = [0..<t + 1]"
proof -
  obtain s0 where s0: "loop_entry X0 Y0 W10 W20 XV YV = Some s0" "shapes n d k m s0"
    "cost s0 = []" "counter s0 = []" "cost_val s0 = []"
    using notebook_shapes [OF assms(1)] by blast
  define st where "st = ref_run n d k m (Suc t) s0"
  have it: "iterations (Suc t) s0 = Some st"
    unfolding st_def by (rule iterations_shapes [OF s0(2)])
  have "training_loop s0 = for_loop [Suc t..<niteration] st"
    by (simp add: training_loop_split [OF assms(2)] it)
  moreover have "length (cost st) = t + 1" "length (counter st) = t + 1"
    "length (cost_val st) = t + 1" "counter st = [0..<t + 1]"
    unfolding st_def
    using s0(3-5) ref_run_counter [of n d k m "Suc t" s0] ref_run_cost_length [of n d k m "Suc t" s0]
      ref_run_cost_val_length [of n d k m "Suc t" s0]
    by simp_all
  ultimately show ?thesis using s0(1) it by blast
qed

theorem histories_after_every_iteration_witness:
  "randn_shapes 1 2 2 1 [[1, 2]] [[0]] [[1, -1], [0, 1]] [[1], [1]] [[2, 1]] [[1]] \<and>
   (1 :: nat) < niteration \<and>
   (\<exists>s0 st. loop_entry [[1, 2]] [[0]] [[1, -1], [0, 1]] [[1], [1]] [[2, 1]] [[1]] = Some s0 \<and>
     iterations (Suc 1) s0 = Some st \<and>
     training_loop s0 = for_loop [Suc 1..<niteration] st \<and>
     length (cost st) = 1 + 1 \<and> length (counter st) = 1 + 1 \<and> length (cost_val st) = 1 + 1 \<and>
     counter st = [0..<1 + 1])"
proof -
  have h: "randn_shapes 1 2 2 1 [[1, 2]] [[0]] [[1, -1], [0, 1]] [[1], [1]] [[2, 1]] [[1]]"
    by (simp add: randn_shapes_def is_matrix_def)
  have l: "(1 :: nat) < niteration" by (simp add: niteration_def)
  show ?thesis by (intro conjI h l histories_after_every_iteration [OF h l])
qed

section \<open>What the loop leaves unchanged\<close>

lemma replicate_is_matrix: "0 < n \<Longrightarrow> 0 < m \<Longrightarrow> is_matrix n m (replicate n (replicate m c))"
  by (simp add: is_matrix_def)

text \<open>
  C9, as the code has it: no iteration of the training loop modifies \<open>x\<close>, \<open>y\<close>,
  \<open>x_val\<close> or \<open>y_val\<close> (or the learning rate); after any number of iterations
  only the weights \<open>w1\<close> and \<open>w2\<close>, the two loss histories \<open>cost\<close> and
  \<open>cost_val\<close> and the list of iteration indices \<open>counter\<close> differ from the
  state in which the loop was entered.
\<close>

theorem loop_frame:
  assumes "shapes n d k m s"
  shows "\<exists>s'. iterations j s = Some s' \<and>
     x s' = x s \<and> y s' = y s \<and> x_val s' = x_val s \<and> y_val s' = y_val s \<and>
     learning_rate s' = learning_rate s \<and>
     s' = s\<lparr>w1 := w1 s', w2 := w2 s', cost := cost s', counter := counter s',
            cost_val := cost_val s'\<rparr>"
proof -
  define s' where "s' = ref_run n d k m j s"
  have it: "iterations j s = Some s'"
    unfolding s'_def by (rule iterations_shapes [OF assms])
  have fr: "x s' = x s" "y s' = y s" "x_val s' = x_val s" "y_val s' = y_val s"
    "learning_rate s' = learning_rate s"
    unfolding s'_def by (rule ref_run_frame)+
  have "s' = s\<lparr>w1 := w1 s', w2 := w2 s', cost := cost s', counter := counter s',
            cost_val := cost_val s'\<rparr>"
    using fr by (cases s, cases s') simp
  then show ?thesis using it fr by blast
qed

theorem loop_frame_witness:
  "shapes 1 2 2 1 \<lparr>x = [[1, 2]], y = [[0]], w1 = [[1, -1], [0, 1]], w2 = [[1], [1]],
      learning_rate = 1 / 10, x_val = [[2, 1]], y_val = [[1]], cost = [], counter = [],
      cost_val = []\<rparr> \<and>
   iterations 1 \<lparr>x = [[1, 2]], y = [[0]], w1 = [[1, -1], [0, 1]], w2 = [[1], [1]],
      learning_rate = 1 / 10, x_val = [[2, 1]], y_val = [[1]], cost = [], counter = [],
      cost_val = []\<rparr> =
     Some \<lparr>x = [[1, 2]], y = [[0]], w1 = [[3 / 5, - (7 / 5)], [- (4 / 5), 1 / 5]],
      w2 = [[3 / 5], [3 / 5]], learning_rate = 1 / 10, x_val = [[2, 1]], y_val = [[1]],
      cost = [4], counter = [0], cost_val = [1]\<rparr> \<and>
   (\<exists>s'. iterations 500 \<lparr>x = [[1, 2]], y = [[0]], w1 = [[1, -1], [0, 1]], w2 = [[1], [1]],
      learning_rate = 1 / 10, x_val = [[2, 1]], y_val = [[1]], cost = [], counter = [],
      cost_val = []\<rparr> = Some s' \<and>
     x s' = [[1, 2]] \<and> y s' = [[0]] \<and> x_val s' = [[2, 1]] \<and> y_val s' = [[1]])"
proof -
  define s :: state where "s = \<lparr>x = [[1, 2]], y = [[0]], w1 = [[1, -1], [0, 1]], w2 = [[1], [1]],
      learning_rate = 1 / 10, x_val = [[2, 1]], y_val = [[1]], cost = [], counter = [],
      cost_val = []\<rparr>"
  have h: "shapes 1 2 2 1 s"
    by (simp add: s_def shapes_def is_matrix_def)
  have e: "iterations 1 s = Some \<lparr>x = [[1, 2]], y = [[0]], w1 = [[3 / 5, - (7 / 5)], [- (4 / 5), 1 / 5]],
      w2 = [[3 / 5], [3 / 5]], learning_rate = 1 / 10, x_val = [[2, 1]], y_val = [[1]],
      cost = [4], counter = [0], cost_val = [1]\<rparr>"
    by (simp add: s_def iterations_def body_def dot_def mmul_def T_def inner_def maximum_def
        subtract_def smult_def square_def sum_all_def less_m_def setitem_mask_def
        shape_def nrows_def ncols_def upt_rec)
  have "\<exists>s'. iterations 500 s = Some s' \<and>
     x s' = [[1, 2]] \<and> y s' = [[0]] \<and> x_val s' = [[2, 1]] \<and> y_val s' = [[1]]"
    using loop_frame [OF h, of 500] by (auto simp: s_def)
  then show ?thesis using h e unfolding s_def by blast
qed

lemma notebook_arrays:
  "randn_shapes N D_in H D_out
     (replicate N (replicate D_in a)) (replicate N (replicate D_out b))
     (replicate D_in (replicate H c)) (replicate H (replicate D_out e))
     (replicate N (replicate D_in f)) (replicate N (replicate D_out g))"
  by (simp add: randn_shapes_def replicate_is_matrix N_def D_in_def H_def D_out_def)

text \<open>
  C9 as it is written names only the weights and the loss histories among what
  changes. The list \<open>counter\<close> changes as well: it is empty when the loop is
  entered and holds the 500 iteration indices when the loop ends. The arrays are those
  of the notebook's shapes with every entry 1.
\<close>

theorem only_weights_and_losses_change_counterexample:
  "map_option counter
     (loop_entry (replicate N (replicate D_in 1)) (replicate N (replicate D_out 1))
        (replicate D_in (replicate H 1)) (replicate H (replicate D_out 1))
        (replicate N (replicate D_in 1)) (replicate N (replicate D_out 1))) = Some [] \<and>
   map_option counter
     (notebook (replicate N (replicate D_in 1)) (replicate N (replicate D_out 1))
        (replicate D_in (replicate H 1)) (replicate H (replicate D_out 1))
        (replicate N (replicate D_in 1)) (replicate N (replicate D_out 1))) = Some [0..<500]"
proof -
  obtain s0 where s0:
    "loop_entry (replicate N (replicate D_in 1)) (replicate N (replicate D_out 1))
        (replicate D_in (replicate H 1)) (replicate H (replicate D_out 1))
        (replicate N (replicate D_in 1)) (replicate N (replicate D_out 1)) = Some s0"
    "counter s0 = []"
    "notebook (replicate N (replicate D_in 1)) (replicate N (replicate D_out 1))
        (replicate D_in (replicate H 1)) (replicate H (replicate D_out 1))
        (replicate N (replicate D_in 1)) (replicate N (replicate D_out 1)) =
      Some (ref_run N D_in H D_out niteration s0)"
    using notebook_shapes [OF notebook_arrays [of 1 1 1 1 1 1]] by blast
  show ?thesis
    unfolding s0(1) s0(3) by (simp add: ref_run_counter s0(2) niteration_def)
qed

section \<open>The validation set\<close>

lemma ref_run_weights_cost_cong:
  assumes "x a = x b" "y a = y b" "w1 a = w1 b" "w2 a = w2 b"
    "learning_rate a = learning_rate b" "cost a = cost b"
  shows "w1 (ref_run n d k m j a) = w1 (ref_run n d k m j b) \<and>
         w2 (ref_run n d k m j a) = w2 (ref_run n d k m j b) \<and>
         cost (ref_run n d k m j a) = cost (ref_run n d k m j b)"
proof (induction j)
  case 0
  show ?case using assms by simp
next
  case (Suc j)
  then show ?case
    using assms by (simp add: ref_iteration_def ref_run_frame)
qed

text \<open>
  C5: two runs of the training loop that differ only in the validation data
  \<open>x_val\<close> and \<open>y_val\<close> have the same weights \<open>w1\<close> and \<open>w2\<close> after every
  number \<open>j\<close> of iterations, and the same history of the training loss.
\<close>

theorem validation_data_does_not_influence_training:
  assumes "shapes n d k m s" and "is_matrix n d XV'" and "is_matrix n m YV'"
  shows "\<exists>a b. iterations j s = Some a \<and>
     iterations j (s\<lparr>x_val := XV', y_val := YV'\<rparr>) = Some b \<and>
     w1 a = w1 b \<and> w2 a = w2 b \<and> cost a = cost b"
proof -
  have sh: "shapes n d k m (s\<lparr>x_val := XV', y_val := YV'\<rparr>)"
    using assms by (simp add: shapes_def)
  have "w1 (ref_run n d k m j s) = w1 (ref_run n d k m j (s\<lparr>x_val := XV', y_val := YV'\<rparr>)) \<and>
        w2 (ref_run n d k m j s) = w2 (ref_run n d k m j (s\<lparr>x_val := XV', y_val := YV'\<rparr>)) \<and>
        cost (ref_run n d k m j s) = cost (ref_run n d k m j (s\<lparr>x_val := XV', y_val := YV'\<rparr>))"
    by (rule ref_run_weights_cost_cong) simp_all
  then show ?thesis
    using iterations_shapes [OF assms(1), of j] iterations_shapes [OF sh, of j] by blast
qed

theorem validation_data_does_not_influence_training_witness:
  "shapes 1 2 2 1 \<lparr>x = [[1, 2]], y = [[0]], w1 = [[1, -1], [0, 1]], w2 = [[1], [1]],
      learning_rate = 1 / 10, x_val = [[2, 1]], y_val = [[1]], cost = [], counter = [],
      cost_val = []\<rparr> \<and>
   is_matrix 1 2 [[5, 7 :: real]] \<and> is_matrix 1 1 [[3 :: real]] \<and>
   (\<exists>a b. iterations 500 \<lparr>x = [[1, 2]], y = [[0]], w1 = [[1, -1], [0, 1]], w2 = [[1], [1]],
      learning_rate = 1 / 10, x_val = [[2, 1]], y_val = [[1]], cost = [], counter = [],
      cost_val = []\<rparr> = Some a \<and>
     iterations 500 \<lparr>x = [[1, 2]], y = [[0]], w1 = [[1, -1], [0, 1]], w2 = [[1], [1]],
      learning_rate = 1 / 10, x_val = [[5, 7]], y_val = [[3]], cost = [], counter = [],
      cost_val = []\<rparr> = Some b \<and>
     w1 a = w1 b \<and> w2 a = w2 b \<and> cost a = cost b)"
proof -
  define s :: state where "s = \<lparr>x = [[1, 2]], y = [[0]], w1 = [[1, -1], [0, 1]], w2 = [[1], [1]],
      learning_rate = 1 / 10, x_val = [[2, 1]], y_val = [[1]], cost = [], counter = [],
      cost_val = []\<rparr>"
  have h: "shapes 1 2 2 1 s"
    by (simp add: s_def shapes_def is_matrix_def)
  have v: "is_matrix 1 2 [[5, 7 :: real]]" "is_matrix 1 1 [[3 :: real]]"
    by (simp_all add: is_matrix_def)
  have "\<exists>a b. iterations 500 s = Some a \<and>
     iterations 500 (s\<lparr>x_val := [[5, 7]], y_val := [[3]]\<rparr>) = Some b \<and>
     w1 a = w1 b \<and> w2 a = w2 b \<and> cost a = cost b"
    by (rule validation_data_does_not_influence_training [OF h v])
  then show ?thesis using h v unfolding s_def by simp
qed



text \<open>
  C3, as the code has it: between the random initialisation and the first iteration
  of the training loop the cells 3 to 6 apply exactly one step of gradient descent,
  with the learning rate \<open>1e-6\<close>, to the initial weights. The first iteration
  computes its forward pass, and the first recorded training loss, with the weights
  that this step produced.
\<close>

theorem first_iteration_after_one_step:
  assumes "randn_shapes n d k m X0 Y0 W10 W20 XV YV"
  shows "\<exists>W1 W2 s0 s1 h h_relu y_pred L.
     gd_step (1 / 10 ^ 6) X0 Y0 W10 W20 = Some (W1, W2) \<and>
     loop_entry X0 Y0 W10 W20 XV YV = Some s0 \<and>
     x s0 = X0 \<and> y s0 = Y0 \<and> w1 s0 = W1 \<and> w2 s0 = W2 \<and>
     iterations 1 s0 = Some s1 \<and>
     forward X0 W1 W2 = Some (h, h_relu, y_pred) \<and> cost_fn y_pred Y0 = Some L \<and>
     cost s1 = [L]"
proof -
  have a: "is_matrix n d X0" "is_matrix n m Y0" "is_matrix d k W10" "is_matrix k m W20"
    using assms by (simp_all add: randn_shapes_def)
  then have pos: "0 < n" "0 < d" "0 < k" "0 < m" by (simp_all add: is_matrix_def)
  define W1 where "W1 = mk_matrix d k (ref_update (1 / 10 ^ 6) (entries W10)
      (fst (ref_grads n d k m (entries X0) (entries Y0) (entries W10) (entries W20))))"
  define W2 where "W2 = mk_matrix k m (ref_update (1 / 10 ^ 6) (entries W20)
      (snd (ref_grads n d k m (entries X0) (entries Y0) (entries W10) (entries W20))))"
  define s0 where "s0 = \<lparr>x = X0, y = Y0, w1 = W1, w2 = W2, learning_rate = 1 / 10 ^ 6,
      x_val = XV, y_val = YV, cost = [], counter = [], cost_val = []\<rparr>"
  define L where "L = ref_loss n m (ref_Y_pred d k (entries X0) (entries W1) (entries W2)) (entries Y0)"
  have W: "is_matrix d k W1" "is_matrix k m W2"
    unfolding W1_def W2_def by (simp_all add: mk_matrix_is_matrix pos)
  have 1: "gd_step (1 / 10 ^ 6) X0 Y0 W10 W20 = Some (W1, W2)"
    unfolding W1_def W2_def by (rule gd_step_entries [OF a])
  have 2: "loop_entry X0 Y0 W10 W20 XV YV = Some s0"
    unfolding s0_def W1_def W2_def by (rule loop_entry_shapes [OF assms])
  have sh: "shapes n d k m s0" by (rule loop_entry_state_shapes [OF assms 2])
  have 3: "iterations 1 s0 = Some (ref_run n d k m 1 s0)"
    by (rule iterations_shapes [OF sh])
  have 4: "forward X0 W1 W2 =
      Some (mk_matrix n k (ref_prod d (entries X0) (entries W1)),
            mk_matrix n k (ref_relu (ref_prod d (entries X0) (entries W1))),
            mk_matrix n m (ref_Y_pred d k (entries X0) (entries W1) (entries W2)))"
    by (rule forward_entries [OF a(1) W])
  have 5: "cost_fn (mk_matrix n m (ref_Y_pred d k (entries X0) (entries W1) (entries W2))) Y0 = Some L"
    unfolding L_def by (rule cost_fn_entries [OF pos(1) a(2)])
  have 6: "cost (ref_run n d k m 1 s0) = [L]"
    by (simp add: ref_iteration_def s0_def L_def)
  have 7: "x s0 = X0 \<and> y s0 = Y0 \<and> w1 s0 = W1 \<and> w2 s0 = W2" by (simp add: s0_def)
  show ?thesis using 1 2 3 4 5 6 7 by blast
qed

theorem first_iteration_after_one_step_witness:
  "randn_shapes 1 2 2 1 [[1, 2]] [[0]] [[1, -1], [0, 1]] [[1], [1]] [[2, 1]] [[1]] \<and>
   gd_step (1 / 10 ^ 6) [[1, 2]] [[0]] [[1, -1], [0, 1]] [[1], [1]] =
     Some ([[249999 / 250000, - (250001 / 250000)], [- (1 / 125000), 124999 / 125000]],
           [[249999 / 250000], [249999 / 250000]]) \<and>
   (\<exists>W1 W2 s0 s1 h h_relu y_pred L.
     gd_step (1 / 10 ^ 6) [[1, 2]] [[0]] [[1, -1], [0, 1]] [[1], [1]] = Some (W1, W2) \<and>
     loop_entry [[1, 2]] [[0]] [[1, -1], [0, 1]] [[1], [1]] [[2, 1]] [[1]] = Some s0 \<and>
     x s0 = [[1, 2]] \<and> y s0 = [[0]] \<and> w1 s0 = W1 \<and> w2 s0 = W2 \<and>
     iterations 1 s0 = Some s1 \<and>
     forward [[1, 2]] W1 W2 = Some (h, h_relu, y_pred) \<and> cost_fn y_pred [[0]] = Some L \<and>
     cost s1 = [L])"
proof -
  have h: "randn_shapes 1 2 2 1 [[1, 2]] [[0]] [[1, -1], [0, 1]] [[1], [1]] [[2, 1]] [[1]]"
    by (simp add: randn_shapes_def is_matrix_def)
  have e: "gd_step (1 / 10 ^ 6) [[1, 2]] [[0]] [[1, -1], [0, 1]] [[1], [1]] =
     Some ([[249999 / 250000, - (250001 / 250000)], [- (1 / 125000), 124999 / 125000]],
           [[249999 / 250000], [249999 / 250000]])"
    by (simp add: gd_step_def forward_def backward_def update_def dot_def mmul_def T_def inner_def
        maximum_def subtract_def smult_def less_m_def setitem_mask_def
        shape_def nrows_def ncols_def upt_rec Let_def)
  show ?thesis by (intro conjI h e first_iteration_after_one_step [OF h])
qed

lemma entries_replicate: "i < n \<Longrightarrow> j < m \<Longrightarrow> entries (replicate n (replicate m c)) i j = c"
  by (simp add: entries_def)

lemma ref_prod_const:
  assumes "\<And>l. l < p \<Longrightarrow> A i l = a" and "\<And>l. l < p \<Longrightarrow> B l j = b"
  shows "ref_prod p A B i j = real p * (a * b)"
  unfolding ref_prod_def using assms by simp

text \<open>
  C3 as it is written fails: cell 6 has updated the weights before the loop is
  entered. For arrays of the notebook's shapes with \<open>x\<close>, \<open>y\<close> and \<open>w1\<close> all ones
  and \<open>w2\<close> all zeros, the entry \<open>(0, 0)\<close> of \<open>w2\<close> is \<open>16 / 125\<close> when the loop is
  entered: the gradient is \<open>64 \<cdot> 1000 \<cdot> (- 2)\<close>, times the learning rate \<open>1e-6\<close>.
\<close>

theorem first_iteration_initial_weights_counterexample:
  "map_option (\<lambda>s. w2 s ! 0 ! 0)
     (loop_entry (replicate N (replicate D_in 1)) (replicate N (replicate D_out 1))
        (replicate D_in (replicate H 1)) (replicate H (replicate D_out 0))
        (replicate N (replicate D_in 1)) (replicate N (replicate D_out 1))) = Some (16 / 125) \<and>
   map_option w2
     (loop_entry (replicate N (replicate D_in 1)) (replicate N (replicate D_out 1))
        (replicate D_in (replicate H 1)) (replicate H (replicate D_out 0))
        (replicate N (replicate D_in 1)) (replicate N (replicate D_out 1))) \<noteq>
     Some (replicate H (replicate D_out 0))"
proof -
  define X where "X = entries (replicate N (replicate D_in 1))"
  define Y where "Y = entries (replicate N (replicate D_out 1))"
  define W1 where "W1 = entries (replicate D_in (replicate H 1))"
  define W2 where "W2 = entries (replicate H (replicate D_out 0))"
  have X: "X i l = 1" if "i < N" "l < D_in" for i l
    unfolding X_def using that by (rule entries_replicate)
  have Y: "Y i j = 1" if "i < N" "j < D_out" for i j
    unfolding Y_def using that by (rule entries_replicate)
  have W1: "W1 l j = 1" if "l < D_in" "j < H" for l j
    unfolding W1_def using that by (rule entries_replicate)
  have W2: "W2 l j = 0" if "l < H" "j < D_out" for l j
    unfolding W2_def using that by (rule entries_replicate)
  have hid: "ref_prod D_in X W1 i j = 1000" if "i < N" "j < H" for i j
    using that by (subst ref_prod_const [of D_in X i 1 W1 j 1]) (simp_all add: X W1 D_in_def)
  have act: "ref_relu (ref_prod D_in X W1) i j = 1000" if "i < N" "j < H" for i j
    using that by (simp add: ref_relu_def hid)
  have out: "ref_prod H (ref_relu (ref_prod D_in X W1)) W2 i j = 0" if "i < N" "j < D_out" for i j
    using that by (subst ref_prod_const [of H _ i 1000 W2 j 0]) (simp_all add: act W2)
  have gout: "ref_grad_Y_pred (ref_prod H (ref_relu (ref_prod D_in X W1)) W2) Y i j = - 2"
    if "i < N" "j < D_out" for i j
    using that by (simp add: ref_grad_Y_pred_def out Y)
  have pos: "0 < H" "0 < D_out" by (simp_all add: H_def D_out_def)
  have "ref_prod N (ref_tr (ref_relu (ref_prod D_in X W1)))
      (ref_grad_Y_pred (ref_prod H (ref_relu (ref_prod D_in X W1)) W2) Y) 0 0 =
      real N * (1000 * - 2)"
    by (rule ref_prod_const) (simp_all add: ref_tr_def act gout pos)
  then have g2: "snd (ref_grads N D_in H D_out X Y W1 W2) 0 0 = - 128000"
    by (simp add: ref_grads_def Let_def ref_grad_W2_def N_def)
  obtain s0 where s0: "loop_entry (replicate N (replicate D_in 1)) (replicate N (replicate D_out 1))
        (replicate D_in (replicate H 1)) (replicate H (replicate D_out 0))
        (replicate N (replicate D_in 1)) (replicate N (replicate D_out 1)) = Some s0"
      and w: "w2 s0 = mk_matrix H D_out (ref_update (1 / 10 ^ 6) W2 (snd (ref_grads N D_in H D_out X Y W1 W2)))"
    unfolding X_def Y_def W1_def W2_def
    by (simp add: loop_entry_shapes [OF notebook_arrays [of 1 1 1 0 1 1]])
  have v: "w2 s0 ! 0 ! 0 = 16 / 125"
    unfolding w
    by (simp add: mk_matrix_nth pos ref_update_def g2 W2)
  have "replicate H (replicate D_out (0 :: real)) ! 0 ! 0 = 0"
    by (simp add: pos)
  with v have "w2 s0 \<noteq> replicate H (replicate D_out 0)" by auto
  with v show ?thesis by (simp add: s0)
qed

section \<open>The backward pass and the update against the reference\<close>

lemma entries_mk_matrix: "i < n \<Longrightarrow> j < m \<Longrightarrow> entries (mk_matrix n m F) i j = F i j"
  by (simp add: entries_def mk_matrix_nth)

lemma ref_grad_W2_entries:
  "mk_matrix k m (ref_grad_W2 n (entries (mk_matrix n k R))
       (ref_grad_Y_pred (entries (mk_matrix n m P)) Y)) =
   mk_matrix k m (ref_grad_W2 n R (ref_grad_Y_pred P Y))"
  by (rule mk_matrix_cong)
     (simp add: ref_grad_W2_def ref_prod_def ref_tr_def ref_grad_Y_pred_def entries_mk_matrix)

lemma ref_grad_W1_entries:
  "mk_matrix d k (ref_grad_W1 n X (ref_grad_H
       (ref_grad_H_relu m (ref_grad_Y_pred (entries (mk_matrix n m P)) Y) W2)
       (entries (mk_matrix n k A)))) =
   mk_matrix d k (ref_grad_W1 n X (ref_grad_H (ref_grad_H_relu m (ref_grad_Y_pred P Y) W2) A))"
  by (rule mk_matrix_cong)
     (simp add: ref_grad_W1_def ref_prod_def ref_tr_def ref_grad_H_def ref_grad_H_relu_def
        ref_grad_Y_pred_def entries_mk_matrix cong: if_cong)

lemma ref_update_entries:
  "mk_matrix n m (ref_update lr W (entries (mk_matrix n m G))) = mk_matrix n m (ref_update lr W G)"
  by (rule mk_matrix_cong) (simp add: ref_update_def entries_mk_matrix)

text \<open>
  C1: in every iteration \<open>t\<close> of the training loop, the gradients that the backward
  pass computes from \<open>x\<close>, \<open>y\<close>, \<open>w2\<close> and the arrays \<open>h\<close>, \<open>h_relu\<close>,
  \<open>y_pred\<close> of the forward pass are those of the reference definition
  (\<open>grad_Y_pred = 2 (Y_pred - Y)\<close>, \<open>grad_W2 = H_relu\<^sup>T grad_Y_pred\<close>,
  \<open>grad_H_relu = grad_Y_pred W2\<^sup>T\<close>, \<open>grad_H\<close> is \<open>grad_H_relu\<close> with the entries zeroed
  where \<open>H\<close> is negative, \<open>grad_W1 = X\<^sup>T grad_H\<close>), and the weights after the
  iteration are \<open>W1 - lr grad_W1\<close> and \<open>W2 - lr grad_W2\<close>, where \<open>lr\<close> is
  \<open>1e-6\<close> in every iteration.
\<close>

theorem backward_and_update_refine_reference:
  assumes "randn_shapes n d k m X0 Y0 W10 W20 XV YV" and "t < niteration"
  shows "\<exists>s0 s s' h h_relu y_pred grad_w1 grad_w2.
     loop_entry X0 Y0 W10 W20 XV YV = Some s0 \<and> iterations t s0 = Some s \<and>
     body t s = Some s' \<and> iterations (Suc t) s0 = Some s' \<and>
     learning_rate s = 1 / 10 ^ 6 \<and> learning_rate s' = 1 / 10 ^ 6 \<and>
     forward (x s) (w1 s) (w2 s) = Some (h, h_relu, y_pred) \<and>
     backward (x s) (y s) (w2 s) h h_relu y_pred = Some (grad_w1, grad_w2) \<and>
     grad_w2 = mk_matrix k m
       (ref_grad_W2 n (entries h_relu) (ref_grad_Y_pred (entries y_pred) (entries (y s)))) \<and>
     grad_w1 = mk_matrix d k
       (ref_grad_W1 n (entries (x s))
          (ref_grad_H
             (ref_grad_H_relu m (ref_grad_Y_pred (entries y_pred) (entries (y s))) (entries (w2 s)))
             (entries h))) \<and>
     w1 s' = mk_matrix d k (ref_update (1 / 10 ^ 6) (entries (w1 s)) (entries grad_w1)) \<and>
     w2 s' = mk_matrix k m (ref_update (1 / 10 ^ 6) (entries (w2 s)) (entries grad_w2))"
proof -
  obtain s0 where s0: "loop_entry X0 Y0 W10 W20 XV YV = Some s0" "shapes n d k m s0"
    "learning_rate s0 = 1 / 10 ^ 6"
    using notebook_shapes [OF assms(1)] by blast
  define s where "s = ref_run n d k m t s0"
  define s' where "s' = ref_iteration n d k m t s"
  define HF where "HF = ref_prod d (entries (x s)) (entries (w1 s))"
  define PF where "PF = ref_Y_pred d k (entries (x s)) (entries (w1 s)) (entries (w2 s))"
  define G1 where "G1 = fst (ref_grads n d k m (entries (x s)) (entries (y s)) (entries (w1 s)) (entries (w2 s)))"
  define G2 where "G2 = snd (ref_grads n d k m (entries (x s)) (entries (y s)) (entries (w1 s)) (entries (w2 s)))"
  have sh: "shapes n d k m s" unfolding s_def by (rule ref_run_shapes [OF s0(2)])
  then have a: "is_matrix n d (x s)" "is_matrix n m (y s)" "is_matrix d k (w1 s)"
    "is_matrix k m (w2 s)"
    by (simp_all add: shapes_def)
  have 1: "iterations t s0 = Some s" unfolding s_def by (rule iterations_shapes [OF s0(2)])
  have 2: "body t s = Some s'" unfolding s'_def by (rule body_shapes [OF sh])
  have 3: "iterations (Suc t) s0 = Some s'" by (simp add: iterations_Suc 1 2)
  have 4: "learning_rate s = 1 / 10 ^ 6" unfolding s_def by (simp add: ref_run_frame s0(3))
  have 5: "learning_rate s' = 1 / 10 ^ 6" unfolding s'_def by (simp add: ref_iteration_frame 4)
  have 6: "forward (x s) (w1 s) (w2 s) =
      Some (mk_matrix n k HF, mk_matrix n k (ref_relu HF), mk_matrix n m PF)"
    unfolding HF_def PF_def by (rule forward_entries [OF a(1,3,4)])
  have 7: "backward (x s) (y s) (w2 s) (mk_matrix n k HF) (mk_matrix n k (ref_relu HF))
      (mk_matrix n m PF) = Some (mk_matrix d k G1, mk_matrix k m G2)"
    unfolding HF_def PF_def G1_def G2_def by (rule backward_entries [OF a])
  have G2: "G2 = ref_grad_W2 n (ref_relu HF) (ref_grad_Y_pred PF (entries (y s)))"
    unfolding G2_def HF_def PF_def by (simp add: ref_grads_def Let_def ref_Y_pred_def)
  have G1: "G1 = ref_grad_W1 n (entries (x s))
      (ref_grad_H (ref_grad_H_relu m (ref_grad_Y_pred PF (entries (y s))) (entries (w2 s))) HF)"
    unfolding G1_def HF_def PF_def by (simp add: ref_grads_def Let_def ref_Y_pred_def)
  have 8: "mk_matrix k m G2 = mk_matrix k m
       (ref_grad_W2 n (entries (mk_matrix n k (ref_relu HF)))
          (ref_grad_Y_pred (entries (mk_matrix n m PF)) (entries (y s))))"
    unfolding G2 by (rule ref_grad_W2_entries [symmetric])
  have 9: "mk_matrix d k G1 = mk_matrix d k
       (ref_grad_W1 n (entries (x s))
          (ref_grad_H
             (ref_grad_H_relu m (ref_grad_Y_pred (entries (mk_matrix n m PF)) (entries (y s)))
                (entries (w2 s)))
             (entries (mk_matrix n k HF))))"
    unfolding G1 by (rule ref_grad_W1_entries [symmetric])
  have 10: "w1 s' = mk_matrix d k (ref_update (1 / 10 ^ 6) (entries (w1 s)) (entries (mk_matrix d k G1)))"
    unfolding ref_update_entries
    by (simp add: s'_def ref_iteration_def G1_def 4)
  have 11: "w2 s' = mk_matrix k m (ref_update (1 / 10 ^ 6) (entries (w2 s)) (entries (mk_matrix k m G2)))"
    unfolding ref_update_entries
    by (simp add: s'_def ref_iteration_def G2_def 4)
  show ?thesis
    using s0(1) 1 2 3 4 5 6 7 8 9 10 11 by blast
qed

theorem backward_and_update_refine_reference_witness:
  "randn_shapes 1 2 2 1 [[1, 2]] [[0]] [[1, -1], [0, 1]] [[1], [1]] [[2, 1]] [[1]] \<and>
   (0 :: nat) < niteration \<and>
   backward [[1, 2]] [[0]] [[1], [1]] [[1, 1]] [[1, 1]] [[2]] = Some ([[4, 4], [8, 8]], [[4], [4]]) \<and>
   (\<exists>s0 s s' h h_relu y_pred grad_w1 grad_w2.
     loop_entry [[1, 2]] [[0]] [[1, -1], [0, 1]] [[1], [1]] [[2, 1]] [[1]] = Some s0 \<and>
     iterations 0 s0 = Some s \<and>
     body 0 s = Some s' \<and> iterations (Suc 0) s0 = Some s' \<and>
     learning_rate s = 1 / 10 ^ 6 \<and> learning_rate s' = 1 / 10 ^ 6 \<and>
     forward (x s) (w1 s) (w2 s) = Some (h, h_relu, y_pred) \<and>
     backward (x s) (y s) (w2 s) h h_relu y_pred = Some (grad_w1, grad_w2) \<and>
     grad_w2 = mk_matrix 2 1
       (ref_grad_W2 1 (entries h_relu) (ref_grad_Y_pred (entries y_pred) (entries (y s)))) \<and>
     grad_w1 = mk_matrix 2 2
       (ref_grad_W1 1 (entries (x s))
          (ref_grad_H
             (ref_grad_H_relu 1 (ref_grad_Y_pred (entries y_pred) (entries (y s))) (entries (w2 s)))
             (entries h))) \<and>
     w1 s' = mk_matrix 2 2 (ref_update (1 / 10 ^ 6) (entries (w1 s)) (entries grad_w1)) \<and>
     w2 s' = mk_matrix 2 1 (ref_update (1 / 10 ^ 6) (entries (w2 s)) (entries grad_w2)))"
proof -
  have h: "randn_shapes 1 2 2 1 [[1, 2]] [[0]] [[1, -1], [0, 1]] [[1], [1]] [[2, 1]] [[1]]"
    by (simp add: randn_shapes_def is_matrix_def)
  have l: "(0 :: nat) < niteration" by (simp add: niteration_def)
  have e: "backward [[1, 2]] [[0]] [[1], [1]] [[1, 1]] [[1, 1]] [[2]] = Some ([[4, 4], [8, 8]], [[4], [4]])"
    by (simp add: backward_def dot_def mmul_def T_def inner_def subtract_def smult_def less_m_def
        setitem_mask_def shape_def nrows_def ncols_def upt_rec Let_def)
  show ?thesis by (intro conjI h l e backward_and_update_refine_reference [OF h l])
qed

section \<open>A step of gradient descent and the training loss\<close>








text \<open>An iteration of the loop records the training loss of its weights and replaces
  them by the result of one step of gradient descent.\<close>

lemma body_is_gd_step:
  assumes "shapes n d k m s"
  shows "\<exists>s' L. body t s = Some s' \<and> cost s' = cost s @ [L] \<and>
     training_loss (x s) (y s) (w1 s) (w2 s) = Some L \<and>
     gd_step (learning_rate s) (x s) (y s) (w1 s) (w2 s) = Some (w1 s', w2 s')"
proof -
  have a: "is_matrix n d (x s)" "is_matrix n m (y s)" "is_matrix d k (w1 s)" "is_matrix k m (w2 s)"
    using assms by (simp_all add: shapes_def)
  show ?thesis
    by (simp add: body_shapes [OF assms] training_loss_entries [OF a] gd_step_entries [OF a]
        ref_iteration_def)
qed















section \<open>The mask of the backward pass\<close>

text \<open>The lines of the backward pass up to the mask, on arrays of the right shapes.\<close>

lemma mask_entries:
  assumes "is_matrix n m Y" "is_matrix k m W2" "is_matrix n k h" "is_matrix n m y_pred"
  shows "\<exists>diff grad_h_relu grad_h.
     subtract y_pred Y = Some diff \<and> is_matrix n m diff \<and>
     dot (smult 2 diff) (T W2) = Some grad_h_relu \<and>
     setitem_mask grad_h_relu (less_m h 0) 0 = Some grad_h \<and>
     is_matrix n k grad_h_relu \<and> is_matrix n k grad_h \<and>
     (\<forall>i<n. \<forall>j<k.
        (0 \<le> h ! i ! j \<longrightarrow> grad_h ! i ! j = grad_h_relu ! i ! j) \<and>
        (h ! i ! j < 0 \<longrightarrow> grad_h ! i ! j = 0))"
proof -
  have pos: "0 < n" "0 < k" "0 < m"
    using assms by (simp_all add: is_matrix_def)
  define D where "D = mk_matrix n m (\<lambda>i j. y_pred ! i ! j - Y ! i ! j)"
  define GR where "GR = mk_matrix n k (ref_prod m (\<lambda>i j. 2 * (y_pred ! i ! j - Y ! i ! j)) (ref_tr (entries W2)))"
  define GH where "GH = mk_matrix n k (\<lambda>i j. if h ! i ! j < 0 then 0 else GR ! i ! j)"
  have W2: "W2 = mk_matrix k m (entries W2)" by (rule entries_mk [OF assms(2)])
  have 1: "subtract y_pred Y = Some D"
    unfolding D_def by (rule subtract_mk [OF assms(4) assms(1)])
  have Dm: "is_matrix n m D" unfolding D_def by (simp add: mk_matrix_is_matrix pos)
  have 2: "dot (smult 2 D) (T W2) = Some GR"
    unfolding D_def GR_def using pos by (subst W2) (simp add: mk_ops)
  have GRm: "is_matrix n k GR" unfolding GR_def by (simp add: mk_matrix_is_matrix pos)
  have lm: "is_matrix n k (less_m h 0)"
    using pos by (simp add: less_m_mk [OF assms(3)] mk_matrix_is_matrix)
  have 3: "setitem_mask GR (less_m h 0) 0 = Some GH"
    unfolding GH_def
    by (simp add: setitem_mask_mk [OF GRm lm])
       (rule mk_matrix_cong, simp add: less_m_mk [OF assms(3)] mk_matrix_nth)
  have GHm: "is_matrix n k GH" unfolding GH_def by (simp add: mk_matrix_is_matrix pos)
  have 7: "\<forall>i<n. \<forall>j<k. (0 \<le> h ! i ! j \<longrightarrow> GH ! i ! j = GR ! i ! j) \<and> (h ! i ! j < 0 \<longrightarrow> GH ! i ! j = 0)"
    unfolding GH_def by (simp add: mk_matrix_nth)
  show ?thesis using 1 2 3 7 Dm GRm GHm by blast
qed

text \<open>
  C2: in the backward pass, in cell 5 as in the body of the training loop,
  \<open>grad_h\<close> equals \<open>grad_h_relu\<close> at every entry where \<open>h\<close> is greater than or
  equal to 0, an entry that is exactly 0 included, and is 0 at every entry where
  \<open>h\<close> is negative. Cell 5 returns, and an iteration of the loop subtracts from
  \<open>w1\<close>, the product of \<open>x.T\<close> with this \<open>grad_h\<close>.
\<close>

theorem relu_mask_boundary:
  assumes "is_matrix n d X" "is_matrix n m Y" "is_matrix k m W2"
    and "is_matrix n k h" "is_matrix n k h_relu" "is_matrix n m y_pred"
    and "shapes n' d' k' m' s"
  shows "(\<exists>diff grad_h_relu grad_h grad_w1 grad_w2.
     subtract y_pred Y = Some diff \<and>
     dot (smult 2 diff) (T W2) = Some grad_h_relu \<and>
     setitem_mask grad_h_relu (less_m h 0) 0 = Some grad_h \<and>
     dot (T X) grad_h = Some grad_w1 \<and>
     backward X Y W2 h h_relu y_pred = Some (grad_w1, grad_w2) \<and>
     is_matrix n k grad_h_relu \<and> is_matrix n k grad_h \<and>
     (\<forall>i<n. \<forall>j<k.
        (0 \<le> h ! i ! j \<longrightarrow> grad_h ! i ! j = grad_h_relu ! i ! j) \<and>
        (h ! i ! j < 0 \<longrightarrow> grad_h ! i ! j = 0))) \<and>
    (\<exists>h h_relu y_pred diff grad_h_relu grad_h grad_w1 s'.
     dot (x s) (w1 s) = Some h \<and> h_relu = maximum h 0 \<and> dot h_relu (w2 s) = Some y_pred \<and>
     subtract y_pred (y s) = Some diff \<and>
     dot (smult 2 diff) (T (w2 s)) = Some grad_h_relu \<and>
     setitem_mask grad_h_relu (less_m h 0) 0 = Some grad_h \<and>
     is_matrix n' k' h \<and> is_matrix n' k' grad_h_relu \<and> is_matrix n' k' grad_h \<and>
     (\<forall>i<n'. \<forall>j<k'.
        (0 \<le> h ! i ! j \<longrightarrow> grad_h ! i ! j = grad_h_relu ! i ! j) \<and>
        (h ! i ! j < 0 \<longrightarrow> grad_h ! i ! j = 0)) \<and>
     dot (T (x s)) grad_h = Some grad_w1 \<and>
     body t s = Some s' \<and>
     subtract (w1 s) (smult (learning_rate s) grad_w1) = Some (w1 s'))"
proof -
  text \<open>cell 5\<close>
  obtain D GR GH where c:
    "subtract y_pred Y = Some D" "is_matrix n m D" "dot (smult 2 D) (T W2) = Some GR"
    "setitem_mask GR (less_m h 0) 0 = Some GH" "is_matrix n k GR" "is_matrix n k GH"
    "\<forall>i<n. \<forall>j<k. (0 \<le> h ! i ! j \<longrightarrow> GH ! i ! j = GR ! i ! j) \<and> (h ! i ! j < 0 \<longrightarrow> GH ! i ! j = 0)"
    using mask_entries [OF assms(2,3,4,6)] by blast
  have TX: "is_matrix d n (T X)" by (rule T_is_matrix [OF assms(1)])
  have THR: "is_matrix k n (T h_relu)" by (rule T_is_matrix [OF assms(5)])
  have sD: "is_matrix n m (smult 2 D)"
    using c(2) by (simp add: smult_mk [OF c(2)] mk_matrix_is_matrix is_matrix_pos)
  obtain G1 where 4: "dot (T X) GH = Some G1" using dot_mk [OF TX c(6)] by blast
  obtain G2 where 5: "dot (T h_relu) (smult 2 D) = Some G2" using dot_mk [OF THR sD] by blast
  have 6: "backward X Y W2 h h_relu y_pred = Some (G1, G2)"
    by (simp add: backward_def c(1,3,4) 4 5)
  have cell: "\<exists>diff grad_h_relu grad_h grad_w1 grad_w2.
     subtract y_pred Y = Some diff \<and>
     dot (smult 2 diff) (T W2) = Some grad_h_relu \<and>
     setitem_mask grad_h_relu (less_m h 0) 0 = Some grad_h \<and>
     dot (T X) grad_h = Some grad_w1 \<and>
     backward X Y W2 h h_relu y_pred = Some (grad_w1, grad_w2) \<and>
     is_matrix n k grad_h_relu \<and> is_matrix n k grad_h \<and>
     (\<forall>i<n. \<forall>j<k.
        (0 \<le> h ! i ! j \<longrightarrow> grad_h ! i ! j = grad_h_relu ! i ! j) \<and>
        (h ! i ! j < 0 \<longrightarrow> grad_h ! i ! j = 0))"
    using c(1,3,4,5,6,7) 4 6 by blast
  text \<open>the loop body\<close>
  have a: "is_matrix n' d' (x s)" "is_matrix n' m' (y s)" "is_matrix d' k' (w1 s)"
    "is_matrix k' m' (w2 s)" "is_matrix n' d' (x_val s)" "is_matrix n' m' (y_val s)"
    using assms(7) by (simp_all add: shapes_def)
  then have pos: "0 < n'" "0 < d'" "0 < k'" "0 < m'" by (simp_all add: is_matrix_def)
  define hh where "hh = mk_matrix n' k' (\<lambda>i j. \<Sum>l<d'. x s ! i ! l * w1 s ! l ! j)"
  define hr where "hr = maximum hh 0"
  define yp where "yp = mk_matrix n' m' (\<lambda>i j. \<Sum>l<k'. hr ! i ! l * w2 s ! l ! j)"
  have hm: "is_matrix n' k' hh" unfolding hh_def by (simp add: mk_matrix_is_matrix pos)
  have hrm: "is_matrix n' k' hr"
    unfolding hr_def by (simp add: maximum_mk [OF hm] mk_matrix_is_matrix pos)
  have ypm: "is_matrix n' m' yp" unfolding yp_def by (simp add: mk_matrix_is_matrix pos)
  have b1: "dot (x s) (w1 s) = Some hh" unfolding hh_def by (rule dot_mk [OF a(1,3)])
  have b2: "dot hr (w2 s) = Some yp" unfolding yp_def by (rule dot_mk [OF hrm a(4)])
  obtain D' GR' GH' where c':
    "subtract yp (y s) = Some D'" "is_matrix n' m' D'" "dot (smult 2 D') (T (w2 s)) = Some GR'"
    "setitem_mask GR' (less_m hh 0) 0 = Some GH'" "is_matrix n' k' GR'" "is_matrix n' k' GH'"
    "\<forall>i<n'. \<forall>j<k'. (0 \<le> hh ! i ! j \<longrightarrow> GH' ! i ! j = GR' ! i ! j) \<and> (hh ! i ! j < 0 \<longrightarrow> GH' ! i ! j = 0)"
    using mask_entries [OF a(2) a(4) hm ypm] by blast
  have TX': "is_matrix d' n' (T (x s))" by (rule T_is_matrix [OF a(1)])
  have THR': "is_matrix k' n' (T hr)" by (rule T_is_matrix [OF hrm])
  have sD': "is_matrix n' m' (smult 2 D')"
    by (simp add: smult_mk [OF c'(2)] mk_matrix_is_matrix pos)
  define G1' where "G1' = mmul (T (x s)) GH'"
  define G2' where "G2' = mmul (T hr) (smult 2 D')"
  have b4: "dot (T (x s)) GH' = Some G1'"
    unfolding G1'_def using TX' c'(6) by (simp add: dot_def is_matrix_shape)
  have b5: "dot (T hr) (smult 2 D') = Some G2'"
    unfolding G2'_def using THR' sD' by (simp add: dot_def is_matrix_shape)
  have G1m: "is_matrix d' k' G1'"
    unfolding G1'_def by (simp add: mmul_mk [OF TX' c'(6)] mk_matrix_is_matrix pos)
  have G2m: "is_matrix k' m' G2'"
    unfolding G2'_def by (simp add: mmul_mk [OF THR' sD'] mk_matrix_is_matrix pos)
  define V1 where "V1 = mk_matrix d' k' (\<lambda>i j. w1 s ! i ! j - smult (learning_rate s) G1' ! i ! j)"
  define V2 where "V2 = mk_matrix k' m' (\<lambda>i j. w2 s ! i ! j - smult (learning_rate s) G2' ! i ! j)"
  have sG1: "is_matrix d' k' (smult (learning_rate s) G1')"
    by (simp add: smult_mk [OF G1m] mk_matrix_is_matrix pos)
  have sG2: "is_matrix k' m' (smult (learning_rate s) G2')"
    by (simp add: smult_mk [OF G2m] mk_matrix_is_matrix pos)
  have b6: "subtract (w1 s) (smult (learning_rate s) G1') = Some V1"
    unfolding V1_def by (rule subtract_mk [OF a(3) sG1])
  have b7: "subtract (w2 s) (smult (learning_rate s) G2') = Some V2"
    unfolding V2_def by (rule subtract_mk [OF a(4) sG2])
  have hvm: "is_matrix n' k' (mk_matrix n' k' (\<lambda>i j. \<Sum>l<d'. x_val s ! i ! l * w1 s ! l ! j))"
    by (simp add: mk_matrix_is_matrix pos)
  have hrvm: "is_matrix n' k' (maximum (mk_matrix n' k' (\<lambda>i j. \<Sum>l<d'. x_val s ! i ! l * w1 s ! l ! j)) 0)"
    by (simp add: maximum_mk [OF hvm] mk_matrix_is_matrix pos)
  obtain hv where v1: "dot (x_val s) (w1 s) = Some hv" "is_matrix n' k' (maximum hv 0)"
    using dot_mk [OF a(5,3)] hrvm by simp
  obtain ypv where v2: "dot (maximum hv 0) (w2 s) = Some ypv" "is_matrix n' m' ypv"
    using dot_mk [OF v1(2) a(4)] by (simp add: mk_matrix_is_matrix pos)
  obtain dv where v3: "subtract ypv (y_val s) = Some dv"
    using subtract_mk [OF v2(2) a(6)] by blast
  have "\<exists>s'. body t s = Some s' \<and> w1 s' = V1"
    by (simp add: body_def b1 hr_def [symmetric] b2 c'(1,3,4) v1(1) v2(1) v3 b4 b5 b6 b7 Let_def)
  then obtain s' where s': "body t s = Some s'" "w1 s' = V1" by blast
  have loop: "\<exists>h h_relu y_pred diff grad_h_relu grad_h grad_w1 s'.
     dot (x s) (w1 s) = Some h \<and> h_relu = maximum h 0 \<and> dot h_relu (w2 s) = Some y_pred \<and>
     subtract y_pred (y s) = Some diff \<and>
     dot (smult 2 diff) (T (w2 s)) = Some grad_h_relu \<and>
     setitem_mask grad_h_relu (less_m h 0) 0 = Some grad_h \<and>
     is_matrix n' k' h \<and> is_matrix n' k' grad_h_relu \<and> is_matrix n' k' grad_h \<and>
     (\<forall>i<n'. \<forall>j<k'.
        (0 \<le> h ! i ! j \<longrightarrow> grad_h ! i ! j = grad_h_relu ! i ! j) \<and>
        (h ! i ! j < 0 \<longrightarrow> grad_h ! i ! j = 0)) \<and>
     dot (T (x s)) grad_h = Some grad_w1 \<and>
     body t s = Some s' \<and>
     subtract (w1 s) (smult (learning_rate s) grad_w1) = Some (w1 s')"
    using b1 hr_def b2 c'(1,3,4,5,6,7) hm b4 s'(1) b6 [folded s'(2)] by blast
  show ?thesis using cell loop by (rule conjI)
qed

theorem relu_mask_boundary_witness:
  "is_matrix 1 2 [[1, 2 :: real]] \<and> is_matrix 1 1 [[0 :: real]] \<and>
   is_matrix 3 1 [[1], [1], [1 :: real]] \<and> is_matrix 1 3 [[1, 0, -1 :: real]] \<and>
   is_matrix 1 3 [[1, 0, 0 :: real]] \<and> is_matrix 1 1 [[1 :: real]] \<and>
   shapes 1 2 3 1 \<lparr>x = [[1, 2]], y = [[0]], w1 = [[1, -1, -3], [0, 1 / 2, 1]], w2 = [[1], [1], [1]],
      learning_rate = 1 / 10, x_val = [[2, 1]], y_val = [[1]], cost = [], counter = [],
      cost_val = []\<rparr> \<and>
   backward [[1, 2]] [[0]] [[1], [1], [1]] [[1, 0, -1]] [[1, 0, 0]] [[1]] =
     Some ([[2, 2, 0], [4, 4, 0]], [[2], [0], [0]]) \<and>
   body 0 \<lparr>x = [[1, 2]], y = [[0]], w1 = [[1, -1, -3], [0, 1 / 2, 1]], w2 = [[1], [1], [1]],
      learning_rate = 1 / 10, x_val = [[2, 1]], y_val = [[1]], cost = [], counter = [],
      cost_val = []\<rparr> =
     Some \<lparr>x = [[1, 2]], y = [[0]], w1 = [[4 / 5, - (6 / 5), - 3], [- (2 / 5), 1 / 10, 1]],
      w2 = [[4 / 5], [1], [1]], learning_rate = 1 / 10, x_val = [[2, 1]], y_val = [[1]],
      cost = [1], counter = [0], cost_val = [1]\<rparr> \<and>
   ((\<exists>diff grad_h_relu grad_h grad_w1 grad_w2.
     subtract [[1]] [[0]] = Some diff \<and>
     dot (smult 2 diff) (T [[1], [1], [1]]) = Some grad_h_relu \<and>
     setitem_mask grad_h_relu (less_m [[1, 0, -1]] 0) 0 = Some grad_h \<and>
     dot (T [[1, 2]]) grad_h = Some grad_w1 \<and>
     backward [[1, 2]] [[0]] [[1], [1], [1]] [[1, 0, -1]] [[1, 0, 0]] [[1]] = Some (grad_w1, grad_w2) \<and>
     is_matrix 1 3 grad_h_relu \<and> is_matrix 1 3 grad_h \<and>
     (\<forall>i<1. \<forall>j<3.
        (0 \<le> [[1, 0, -1 :: real]] ! i ! j \<longrightarrow> grad_h ! i ! j = grad_h_relu ! i ! j) \<and>
        ([[1, 0, -1 :: real]] ! i ! j < 0 \<longrightarrow> grad_h ! i ! j = 0))) \<and>
    (\<exists>h h_relu y_pred diff grad_h_relu grad_h grad_w1 s'.
     dot (x 
      \<lparr>x = [[1, 2]], y = [[0]], w1 = [[1, -1, -3], [0, 1 / 2, 1]], w2 = [[1], [1], [1]],
      learning_rate = 1 / 10, x_val = [[2, 1]], y_val = [[1]], cost = [], counter = [],
      cost_val = []\<rparr>) (w1 
      \<lparr>x = [[1, 2]], y = [[0]], w1 = [[1, -1, -3], [0, 1 / 2, 1]], w2 = [[1], [1], [1]],
      learning_rate = 1 / 10, x_val = [[2, 1]], y_val = [[1]], cost = [], counter = [],
      cost_val = []\<rparr>) = Some h \<and> h_relu = maximum h 0 \<and> dot h_relu (w2 
      \<lparr>x = [[1, 2]], y = [[0]], w1 = [[1, -1, -3], [0, 1 / 2, 1]], w2 = [[1], [1], [1]],
      learning_rate = 1 / 10, x_val = [[2, 1]], y_val = [[1]], cost = [], counter = [],
      cost_val = []\<rparr>) = Some y_pred \<and>
     subtract y_pred (y 
      \<lparr>x = [[1, 2]], y = [[0]], w1 = [[1, -1, -3], [0, 1 / 2, 1]], w2 = [[1], [1], [1]],
      learning_rate = 1 / 10, x_val = [[2, 1]], y_val = [[1]], cost = [], counter = [],
      cost_val = []\<rparr>) = Some diff \<and>
     dot (smult 2 diff) (T (w2 
      \<lparr>x = [[1, 2]], y = [[0]], w1 = [[1, -1, -3], [0, 1 / 2, 1]], w2 = [[1], [1], [1]],
      learning_rate = 1 / 10, x_val = [[2, 1]], y_val = [[1]], cost = [], counter = [],
      cost_val = []\<rparr>)) = Some grad_h_relu \<and>
     setitem_mask grad_h_relu (less_m h 0) 0 = Some grad_h \<and>
     is_matrix 1 3 h \<and> is_matrix 1 3 grad_h_relu \<and> is_matrix 1 3 grad_h \<and>
     (\<forall>i<1. \<forall>j<3.
        (0 \<le> h ! i ! j \<longrightarrow> grad_h ! i ! j = grad_h_relu ! i ! j) \<and>
        (h ! i ! j < 0 \<longrightarrow> grad_h ! i ! j = 0)) \<and>
     dot (T (x 
      \<lparr>x = [[1, 2]], y = [[0]], w1 = [[1, -1, -3], [0, 1 / 2, 1]], w2 = [[1], [1], [1]],
      learning_rate = 1 / 10, x_val = [[2, 1]], y_val = [[1]], cost = [], counter = [],
      cost_val = []\<rparr>)) grad_h = Some grad_w1 \<and>
     body 0 
      \<lparr>x = [[1, 2]], y = [[0]], w1 = [[1, -1, -3], [0, 1 / 2, 1]], w2 = [[1], [1], [1]],
      learning_rate = 1 / 10, x_val = [[2, 1]], y_val = [[1]], cost = [], counter = [],
      cost_val = []\<rparr> = Some s' \<and>
     subtract (w1 
      \<lparr>x = [[1, 2]], y = [[0]], w1 = [[1, -1, -3], [0, 1 / 2, 1]], w2 = [[1], [1], [1]],
      learning_rate = 1 / 10, x_val = [[2, 1]], y_val = [[1]], cost = [], counter = [],
      cost_val = []\<rparr>) (smult (learning_rate 
      \<lparr>x = [[1, 2]], y = [[0]], w1 = [[1, -1, -3], [0, 1 / 2, 1]], w2 = [[1], [1], [1]],
      learning_rate = 1 / 10, x_val = [[2, 1]], y_val = [[1]], cost = [], counter = [],
      cost_val = []\<rparr>) grad_w1) = Some (w1 s')))"
proof -
  define s :: state where "s = \<lparr>x = [[1, 2]], y = [[0]], w1 = [[1, -1, -3], [0, 1 / 2, 1]], w2 = [[1], [1], [1]],
      learning_rate = 1 / 10, x_val = [[2, 1]], y_val = [[1]], cost = [], counter = [],
      cost_val = []\<rparr>"
  have a: "is_matrix 1 2 [[1, 2 :: real]]" and b: "is_matrix 1 1 [[0 :: real]]"
    and c: "is_matrix 3 1 [[1], [1], [1 :: real]]" and d: "is_matrix 1 3 [[1, 0, -1 :: real]]"
    and e: "is_matrix 1 3 [[1, 0, 0 :: real]]" and f: "is_matrix 1 1 [[1 :: real]]"
    by (simp_all add: is_matrix_def)
  have h: "shapes 1 2 3 1 s"
    by (simp add: s_def shapes_def is_matrix_def)
  have g: "backward [[1, 2]] [[0]] [[1], [1], [1]] [[1, 0, -1]] [[1, 0, 0]] [[1]] =
     Some ([[2, 2, 0], [4, 4, 0]], [[2], [0], [0]])"
    by (simp add: backward_def subtract_def smult_def dot_def mmul_def T_def inner_def
        setitem_mask_def less_m_def shape_def nrows_def ncols_def upt_rec Let_def)
  have i: "body 0 s = Some \<lparr>x = [[1, 2]], y = [[0]], w1 = [[4 / 5, - (6 / 5), - 3], [- (2 / 5), 1 / 10, 1]],
      w2 = [[4 / 5], [1], [1]], learning_rate = 1 / 10, x_val = [[2, 1]], y_val = [[1]],
      cost = [1], counter = [0], cost_val = [1]\<rparr>"
    by (simp add: s_def body_def dot_def mmul_def T_def inner_def maximum_def
        subtract_def smult_def square_def sum_all_def less_m_def setitem_mask_def
        shape_def nrows_def ncols_def upt_rec)
  have "((\<exists>diff grad_h_relu grad_h grad_w1 grad_w2.
     subtract [[1]] [[0]] = Some diff \<and>
     dot (smult 2 diff) (T [[1], [1], [1]]) = Some grad_h_relu \<and>
     setitem_mask grad_h_relu (less_m [[1, 0, -1]] 0) 0 = Some grad_h \<and>
     dot (T [[1, 2]]) grad_h = Some grad_w1 \<and>
     backward [[1, 2]] [[0]] [[1], [1], [1]] [[1, 0, -1]] [[1, 0, 0]] [[1]] = Some (grad_w1, grad_w2) \<and>
     is_matrix 1 3 grad_h_relu \<and> is_matrix 1 3 grad_h \<and>
     (\<forall>i<1. \<forall>j<3.
        (0 \<le> [[1, 0, -1 :: real]] ! i ! j \<longrightarrow> grad_h ! i ! j = grad_h_relu ! i ! j) \<and>
        ([[1, 0, -1 :: real]] ! i ! j < 0 \<longrightarrow> grad_h ! i ! j = 0))) \<and>
    (\<exists>h h_relu y_pred diff grad_h_relu grad_h grad_w1 s'.
     dot (x s) (w1 s) = Some h \<and> h_relu = maximum h 0 \<and> dot h_relu (w2 s) = Some y_pred \<and>
     subtract y_pred (y s) = Some diff \<and>
     dot (smult 2 diff) (T (w2 s)) = Some grad_h_relu \<and>
     setitem_mask grad_h_relu (less_m h 0) 0 = Some grad_h \<and>
     is_matrix 1 3 h \<and> is_matrix 1 3 grad_h_relu \<and> is_matrix 1 3 grad_h \<and>
     (\<forall>i<1. \<forall>j<3.
        (0 \<le> h ! i ! j \<longrightarrow> grad_h ! i ! j = grad_h_relu ! i ! j) \<and>
        (h ! i ! j < 0 \<longrightarrow> grad_h ! i ! j = 0)) \<and>
     dot (T (x s)) grad_h = Some grad_w1 \<and>
     body 0 s = Some s' \<and>
     subtract (w1 s) (smult (learning_rate s) grad_w1) = Some (w1 s')))"
    by (rule relu_mask_boundary [OF a b c d e f h])
  then show ?thesis
    using a b c d e f g h i unfolding s_def by blast
qed

section \<open>The cost over the real numbers and in binary64\<close>

text \<open>Rounding to the nearest binary64 number.\<close>

lemma exponent64_cases:
  "exponent64 r = - 1022 \<or> (- 1022 < exponent64 r \<and> exponent64 r \<le> 1023 \<and> 2 powi exponent64 r \<le> \<bar>r\<bar>)"
proof -
  let ?S = "insert (- 1022) {e \<in> {- 1022..1023}. 2 powi e \<le> \<bar>r\<bar>}"
  have "?S \<subseteq> {- 1022..1023}" by auto
  then have "finite ?S" by (rule finite_subset) simp
  moreover have "?S \<noteq> {}" by (rule insert_not_empty)
  ultimately have "Max ?S \<in> ?S" by (rule Max_in)
  then show ?thesis unfolding exponent64_def by auto
qed

lemma exponent64_small:
  assumes "\<bar>r\<bar> < 2 powi (- 1022)"
  shows "exponent64 r = - 1022"
proof -
  have "{e \<in> {- 1022..1023}. 2 powi e \<le> \<bar>r\<bar>} = {}"
  proof -
    have "\<bar>r\<bar> < 2 powi e" if "- 1022 \<le> e" for e :: int
    proof -
      have "(2 :: real) powi (- 1022) \<le> 2 powi e"
        using that by (intro power_int_increasing) simp_all
      with assms show ?thesis by simp
    qed
    then show ?thesis by (auto simp: not_le [symmetric])
  qed
  then show ?thesis unfolding exponent64_def by (simp only: Max_singleton)
qed

lemma round_even_bounds: "real_of_int (round_even q) \<le> q + 1 / 2" "q - 1 / 2 \<le> real_of_int (round_even q)"
  unfolding round_even_def Let_def by (auto; linarith)+

lemma round_even_zero_iff: "round_even q = 0 \<longleftrightarrow> \<bar>q\<bar> \<le> 1 / 2"
proof
  assume "round_even q = 0"
  then show "\<bar>q\<bar> \<le> 1 / 2"
    using round_even_bounds [of q] by simp
next
  assume a: "\<bar>q\<bar> \<le> 1 / 2"
  then have "\<lfloor>q\<rfloor> = 0 \<or> \<lfloor>q\<rfloor> = - 1" by linarith
  then show "round_even q = 0"
  proof
    assume "\<lfloor>q\<rfloor> = 0"
    then show ?thesis using a by (simp add: round_even_def Let_def)
  next
    assume "\<lfloor>q\<rfloor> = - 1"
    then show ?thesis using a by (auto simp add: round_even_def Let_def)
  qed
qed

lemma round_even_nonneg: "0 \<le> q \<Longrightarrow> 0 \<le> round_even q"
  unfolding round_even_def Let_def by (auto simp: zero_le_floor; linarith)

lemma round64_zero_iff: "round64 r = Finite 0 \<longleftrightarrow> \<bar>r\<bar> \<le> 2 powi (- 1075)"
proof
  assume z: "round64 r = Finite 0"
  define e where "e = exponent64 r"
  define u :: real where "u = 2 powi (e - 52)"
  have u: "0 < u" by (simp add: u_def)
  have "real_of_int (round_even (r / u)) * u = 0"
    using z unfolding round64_def Let_def e_def [symmetric] u_def [symmetric]
    by (simp split: if_splits)
  then have "round_even (r / u) = 0" using u by simp
  then have "\<bar>r / u\<bar> \<le> 1 / 2" by (simp only: round_even_zero_iff)
  then have "\<bar>r\<bar> \<le> u / 2" using u by (simp add: field_simps abs_mult)
  also have "u / 2 = 2 powi (e - 53)"
    unfolding u_def by (simp add: power_int_diff)
  finally have r: "\<bar>r\<bar> \<le> 2 powi (e - 53)" .
  show "\<bar>r\<bar> \<le> 2 powi (- 1075)"
  proof (cases "e = - 1022")
    case True
    then show ?thesis using r by simp
  next
    case False
    then have "2 powi e \<le> \<bar>r\<bar>"
      using exponent64_cases [of r] by (simp add: e_def)
    with r have "(2 :: real) powi e \<le> 2 powi (e - 53)" by simp
    moreover have "(2 :: real) powi (e - 53) < 2 powi e"
      by (intro power_int_strict_increasing) simp_all
    ultimately show ?thesis by simp
  qed
next
  assume a: "\<bar>r\<bar> \<le> 2 powi (- 1075)"
  have "(2 :: real) powi (- 1075) < 2 powi (- 1022)"
    by (intro power_int_strict_increasing) simp_all
  with a have e: "exponent64 r = - 1022"
    by (intro exponent64_small) simp
  have "\<bar>r / 2 powi (- 1074)\<bar> = \<bar>r\<bar> * 2 powi 1074"
    by (simp add: power_int_minus abs_mult field_simps)
  also have "\<dots> \<le> 2 powi (- 1075) * 2 powi 1074"
    using a by (intro mult_right_mono) simp_all
  also have "\<dots> = 1 / 2"
    by (simp add: power_int_add [symmetric])
  finally have "round_even (r / 2 powi (- 1074)) = 0"
    by (simp only: round_even_zero_iff)
  then show "round64 r = Finite 0"
    by (simp add: round64_def e Let_def)
qed

lemma round64_not_NaN: "round64 r \<noteq> NaN"
  by (simp add: round64_def Let_def)

text \<open>A number that is not negative is rounded to \<open>+inf\<close>, to 0, or to a number that is
  at least the smallest positive binary64 number.\<close>

lemma round64_nonneg:
  assumes "0 \<le> r"
  shows "round64 r = PlusInf \<or> (\<exists>v. round64 r = Finite v \<and> (v = 0 \<or> 2 powi (- 1074) \<le> v))"
proof -
  define e where "e = exponent64 r"
  define u :: real where "u = 2 powi (e - 52)"
  define k where "k = round_even (r / u)"
  have u: "0 < u" by (simp add: u_def)
  have k: "0 \<le> k" unfolding k_def using assms u by (intro round_even_nonneg) simp
  have e: "- 1022 \<le> e" using exponent64_cases [of r] by (auto simp: e_def)
  have r: "round64 r = (if 2 powi 1024 \<le> \<bar>real_of_int k * u\<bar>
      then (if 0 < real_of_int k * u then PlusInf else MinusInf) else Finite (real_of_int k * u))"
    by (simp add: round64_def Let_def e_def u_def k_def)
  show ?thesis
  proof (cases "2 powi 1024 \<le> \<bar>real_of_int k * u\<bar>")
    case True
    moreover have "(0 :: real) < 2 powi 1024" by simp
    ultimately have "0 < \<bar>real_of_int k * u\<bar>" by linarith
    moreover have "0 \<le> real_of_int k * u" using k u by simp
    ultimately have "0 < real_of_int k * u" by simp
    with True show ?thesis by (simp add: r)
  next
    case False
    show ?thesis
    proof (cases "k = 0")
      case True
      with False show ?thesis by (simp add: r)
    next
      case k0: False
      with k have "1 \<le> real_of_int k" by linarith
      then have "1 * u \<le> real_of_int k * u" using u by (intro mult_right_mono) simp_all
      then have "u \<le> real_of_int k * u" by (simp only: mult_1)
      moreover have "(2 :: real) powi (- 1074) \<le> u"
        unfolding u_def using e by (intro power_int_increasing) simp_all
      ultimately have "2 powi (- 1074) \<le> real_of_int k * u" by (rule order_trans [rotated])
      with False show ?thesis unfolding r by (intro disjI2 exI conjI) (simp_all only: if_False)
    qed
  qed
qed

lemma fadd_nonneg:
  assumes "a = PlusInf \<or> (\<exists>v. a = Finite v \<and> (v = 0 \<or> 2 powi (- 1074) \<le> v))"
    and "b = PlusInf \<or> (\<exists>v. b = Finite v \<and> (v = 0 \<or> 2 powi (- 1074) \<le> v))"
  shows "(fadd a b = PlusInf \<or> (\<exists>v. fadd a b = Finite v \<and> (v = 0 \<or> 2 powi (- 1074) \<le> v))) \<and>
    (fadd a b = Finite 0 \<longleftrightarrow> a = Finite 0 \<and> b = Finite 0)"
proof -
  have lt: "(2 :: real) powi (- 1075) < 2 powi (- 1074)"
    by (intro power_int_strict_increasing) simp_all
  consider "a = PlusInf" | "b = PlusInf" "a \<noteq> PlusInf"
    | v w where "a = Finite v" "b = Finite w" "v = 0 \<or> 2 powi (- 1074) \<le> v"
        "w = 0 \<or> 2 powi (- 1074) \<le> w"
    using assms by auto
  then show ?thesis
  proof cases
    case 1
    then show ?thesis using assms(2) by auto
  next
    case 2
    then show ?thesis using assms(1) by auto
  next
    case 3
    have p: "(0 :: real) < 2 powi (- 1074)" by simp
    have nn: "0 \<le> v + w" using 3(3,4) p by auto
    have "\<bar>v + w\<bar> \<le> 2 powi (- 1075) \<longleftrightarrow> v = 0 \<and> w = 0"
      using 3(3,4) lt p by auto
    then show ?thesis
      using round64_nonneg [OF nn] by (simp add: 3(1,2) round64_zero_iff)
  qed
qed

text \<open>The square of a binary64 number.\<close>

lemma fmul_self_nonneg:
  assumes "a \<noteq> NaN"
  shows "fmul a a = PlusInf \<or> (\<exists>v. fmul a a = Finite v \<and> (v = 0 \<or> 2 powi (- 1074) \<le> v))"
  using assms round64_nonneg [of "v * v" for v] by (cases a) simp_all

lemma fmul_self_zero_iff: "fmul a a = Finite 0 \<longleftrightarrow> (\<exists>v. a = Finite v \<and> v\<^sup>2 \<le> 2 powi (- 1075))"
  by (cases a) (simp_all add: round64_zero_iff power2_eq_square)

lemma fsub_self: "fsub (Finite a) (Finite a) = Finite 0"
  by (simp add: round64_zero_iff)

lemma fsub_finite_not_NaN: "fsub (Finite a) (Finite b) \<noteq> NaN"
  by (simp add: round64_not_NaN)

text \<open>The sum, in any order of the additions.\<close>

lemma sum64_exists: "\<exists>L. sum64 A L"
proof (induction A)
  case empty
  show ?case by (rule exI, rule sum64.empty)
next
  case (add v A)
  then obtain L where "sum64 A L" ..
  then have "sum64 ({#v#} + A) (fadd v L)"
    by (intro sum64.add sum64.single)
  then show ?case by auto
qed

lemma sum64_nonneg:
  assumes "sum64 A L"
    and "\<forall>a\<in>#A. a = PlusInf \<or> (\<exists>v. a = Finite v \<and> (v = 0 \<or> 2 powi (- 1074) \<le> v))"
  shows "(L = PlusInf \<or> (\<exists>v. L = Finite v \<and> (v = 0 \<or> 2 powi (- 1074) \<le> v))) \<and>
    (L = Finite 0 \<longleftrightarrow> (\<forall>a\<in>#A. a = Finite 0))"
  using assms
proof (induction rule: sum64.induct)
  case empty
  show ?case by simp
next
  case (single v)
  then show ?case by simp
next
  case (add A a B b)
  have A: "(a = PlusInf \<or> (\<exists>v. a = Finite v \<and> (v = 0 \<or> 2 powi (- 1074) \<le> v))) \<and>
    (a = Finite 0 \<longleftrightarrow> (\<forall>a\<in>#A. a = Finite 0))"
    using add.prems by (intro add.IH) simp
  have B: "(b = PlusInf \<or> (\<exists>v. b = Finite v \<and> (v = 0 \<or> 2 powi (- 1074) \<le> v))) \<and>
    (b = Finite 0 \<longleftrightarrow> (\<forall>a\<in>#B. a = Finite 0))"
    using add.prems by (intro add.IH) simp
  show ?case
    using fadd_nonneg [OF conjunct1 [OF A] conjunct1 [OF B]] conjunct2 [OF A] conjunct2 [OF B]
    by auto
qed

text \<open>The cost in binary64 on arrays of the same shape.\<close>

lemma set_concat_mk_matrix:
  "a \<in> set (concat (mk_matrix n m F)) \<longleftrightarrow> (\<exists>i j. i < n \<and> j < m \<and> a = F i j)"
proof
  assume "a \<in> set (concat (mk_matrix n m F))"
  then obtain i j where "i < n" "j < m" "a = F i j"
    by (auto simp: mk_matrix_def)
  then show "\<exists>i j. i < n \<and> j < m \<and> a = F i j"
    by blast
next
  assume "\<exists>i j. i < n \<and> j < m \<and> a = F i j"
  then obtain i j where "i < n" "j < m" "a = F i j" by blast
  then have "a \<in> set (map (F i) [0..<m])" "map (F i) [0..<m] \<in> set (mk_matrix n m F)"
    by (auto simp: mk_matrix_def intro!: image_eqI [where x = i])
  then show "a \<in> set (concat (mk_matrix n m F))"
    unfolding set_concat by blast
qed

lemma cost_fn64_mk:
  assumes "is_matrix n m P" "is_matrix n m Q"
  shows "cost_fn64 P Q L \<longleftrightarrow>
    sum64 (mset (concat (mk_matrix n m
      (\<lambda>i j. fmul (fsub (P ! i ! j) (Q ! i ! j)) (fsub (P ! i ! j) (Q ! i ! j)))))) L"
proof -
  have pos: "0 < n" "0 < m" using assms(1) by (simp_all add: is_matrix_def)
  have d: "subtract64 P Q = Some (mk_matrix n m (\<lambda>i j. fsub (P ! i ! j) (Q ! i ! j)))"
    by (simp add: subtract64_def is_matrix_shape [OF assms(1)] is_matrix_shape [OF assms(2)]
        map2_map2_mk [OF assms])
  have s: "square64 (mk_matrix n m (\<lambda>i j. fsub (P ! i ! j) (Q ! i ! j))) =
      mk_matrix n m (\<lambda>i j. fmul (fsub (P ! i ! j) (Q ! i ! j)) (fsub (P ! i ! j) (Q ! i ! j)))"
    unfolding square64_def
    by (subst map_map_mk [OF mk_matrix_is_matrix [OF pos]])
       (rule mk_matrix_cong, simp add: mk_matrix_nth)
  show ?thesis by (simp add: cost_fn64_def d s)
qed

lemma finite_entries:
  assumes "is_matrix n m P" "list_all (list_all isfinite) P" "i < n" "j < m"
  shows "\<exists>a. P ! i ! j = Finite a"
proof -
  have "P ! i \<in> set P" using assms(1,3) by (simp add: is_matrix_def)
  moreover from this have "length (P ! i) = m" using assms(1) by (simp add: is_matrix_def)
  ultimately have "isfinite (P ! i ! j)"
    using assms(2,4) by (simp add: list_all_iff)
  then show ?thesis by (cases "P ! i ! j") simp_all
qed

lemma cost_fn64_finite:
  assumes "is_matrix n m P" "is_matrix n m Q"
    and "list_all (list_all isfinite) P" "list_all (list_all isfinite) Q"
  shows "\<exists>L. cost_fn64 P Q L"
    and "cost_fn64 P Q L \<Longrightarrow> L = PlusInf \<or> (\<exists>v\<ge>0. L = Finite v)"
    and "cost_fn64 P Q L \<Longrightarrow> P = Q \<Longrightarrow> L = Finite 0"
    and "cost_fn64 P Q L \<Longrightarrow> L = Finite 0 \<longleftrightarrow>
       (\<forall>i<n. \<forall>j<m. \<exists>v. fsub (P ! i ! j) (Q ! i ! j) = Finite v \<and> v\<^sup>2 \<le> 2 powi (- 1075))"
proof -
  define F where "F = (\<lambda>i j. fmul (fsub (P ! i ! j) (Q ! i ! j)) (fsub (P ! i ! j) (Q ! i ! j)))"
  define A where "A = mset (concat (mk_matrix n m F))"
  have c: "cost_fn64 P Q L \<longleftrightarrow> sum64 A L" for L
    unfolding A_def F_def by (rule cost_fn64_mk [OF assms(1,2)])
  have A: "a \<in># A \<longleftrightarrow> (\<exists>i j. i < n \<and> j < m \<and> a = F i j)" for a
    unfolding A_def set_mset_mset by (rule set_concat_mk_matrix)
  have nn: "fsub (P ! i ! j) (Q ! i ! j) \<noteq> NaN" if "i < n" "j < m" for i j
    using finite_entries [OF assms(1,3) that] finite_entries [OF assms(2,4) that]
    by (auto simp: round64_not_NaN)
  have good: "\<forall>a\<in>#A. a = PlusInf \<or> (\<exists>v. a = Finite v \<and> (v = 0 \<or> 2 powi (- 1074) \<le> v))"
  proof
    fix a assume "a \<in># A"
    then obtain i j where "i < n" "j < m" "a = F i j" unfolding A by blast
    then show "a = PlusInf \<or> (\<exists>v. a = Finite v \<and> (v = 0 \<or> 2 powi (- 1074) \<le> v))"
      unfolding F_def using fmul_self_nonneg [OF nn] by (simp only:)
  qed
  show "\<exists>L. cost_fn64 P Q L"
    unfolding c by (rule sum64_exists)
  have z: "L = Finite 0 \<longleftrightarrow> (\<forall>a\<in>#A. a = Finite 0)"
    and g: "L = PlusInf \<or> (\<exists>v. L = Finite v \<and> (v = 0 \<or> 2 powi (- 1074) \<le> v))"
    if "cost_fn64 P Q L"
    using sum64_nonneg [OF that [unfolded c] good] by simp_all
  have p: "(0 :: real) \<le> 2 powi (- 1074)" by simp
  show "L = PlusInf \<or> (\<exists>v\<ge>0. L = Finite v)" if "cost_fn64 P Q L"
    using g [OF that] p by auto
  have all: "(\<forall>a\<in>#A. a = Finite 0) \<longleftrightarrow>
      (\<forall>i<n. \<forall>j<m. \<exists>v. fsub (P ! i ! j) (Q ! i ! j) = Finite v \<and> v\<^sup>2 \<le> 2 powi (- 1075))"
  proof -
    have "(\<forall>a\<in>#A. a = Finite 0) \<longleftrightarrow> (\<forall>i<n. \<forall>j<m. F i j = Finite 0)"
    proof (intro iffI allI impI ballI)
      fix i j assume "\<forall>a\<in>#A. a = Finite 0" "i < n" "j < m"
      moreover from this have "F i j \<in># A" unfolding A by blast
      ultimately show "F i j = Finite 0" by blast
    next
      fix a assume *: "\<forall>i<n. \<forall>j<m. F i j = Finite 0" "a \<in># A"
      then obtain i j where "i < n" "j < m" "a = F i j" unfolding A by blast
      with *(1) show "a = Finite 0" by simp
    qed
    then show ?thesis
      unfolding F_def by (simp only: fmul_self_zero_iff)
  qed
  show "L = Finite 0 \<longleftrightarrow>
       (\<forall>i<n. \<forall>j<m. \<exists>v. fsub (P ! i ! j) (Q ! i ! j) = Finite v \<and> v\<^sup>2 \<le> 2 powi (- 1075))"
    if "cost_fn64 P Q L"
    by (rule trans [OF z [OF that] all])
  show "L = Finite 0" if "cost_fn64 P Q L" "P = Q"
  proof -
    have "\<exists>v. fsub (P ! i ! j) (Q ! i ! j) = Finite v \<and> v\<^sup>2 \<le> 2 powi (- 1075)"
      if ij: "i < n" "j < m" for i j
    proof -
      obtain a where "P ! i ! j = Finite a"
        using finite_entries [OF assms(1,3) ij] by blast
      then have "fsub (P ! i ! j) (Q ! i ! j) = Finite 0"
        unfolding \<open>P = Q\<close> [symmetric] by (simp only: fsub_self)
      moreover have "(0 :: real)\<^sup>2 \<le> 2 powi (- 1075)"
        by (simp only: zero_power2 zero_le_power_int zero_le_numeral)
      ultimately show ?thesis by blast
    qed
    then show ?thesis
      unfolding z [OF that(1)] all by blast
  qed
qed

text \<open>A power of two in the range of the normal binary64 numbers is rounded to itself.\<close>

lemma round_even_of_int: "round_even (real_of_int k) = k"
  by (simp add: round_even_def)

lemma exponent64_pow2:
  assumes "- 1022 \<le> e" "e \<le> 1023"
  shows "exponent64 (2 powi e) = e"
  unfolding exponent64_def
proof (rule Max_eqI)
  let ?S = "insert (- 1022) {e' \<in> {- 1022..1023}. (2 :: real) powi e' \<le> \<bar>2 powi e\<bar>}"
  have "?S \<subseteq> {- 1022..1023}" by auto
  then show "finite ?S" by (rule finite_subset) simp
  show "e \<in> ?S" using assms by simp
  fix e' assume "e' \<in> ?S"
  then consider "e' = - 1022" | "(2 :: real) powi e' \<le> 2 powi e" by auto
  then show "e' \<le> e"
  proof cases
    case 1
    then show ?thesis using assms by simp
  next
    case 2
    show ?thesis
    proof (rule ccontr)
      assume "\<not> e' \<le> e"
      then have "(2 :: real) powi e < 2 powi e'"
        by (intro power_int_strict_increasing) simp_all
      with 2 show False by simp
    qed
  qed
qed

lemma round64_pow2:
  assumes "- 1022 \<le> e" "e \<le> 1023"
  shows "round64 (2 powi e) = Finite (2 powi e)"
proof -
  have q: "(2 :: real) powi e / 2 powi (e - 52) = real_of_int (2 ^ 52)"
  proof -
    have "(2 :: real) powi e / 2 powi (e - 52) = 2 powi (e - (e - 52))"
      by (rule power_int_diff [symmetric]) simp
    also have "\<dots> = 2 powi 52" by simp
    finally show ?thesis by simp
  qed
  have v: "real_of_int (2 ^ 52) * 2 powi (e - 52) = (2 :: real) powi e"
  proof -
    have "real_of_int (2 ^ 52) = (2 :: real) powi 52" by simp
    also have "\<dots> * 2 powi (e - 52) = 2 powi (52 + (e - 52))"
      by (rule power_int_add [symmetric]) simp
    finally show ?thesis by simp
  qed
  have "(2 :: real) powi e < 2 powi 1024"
    using assms by (intro power_int_strict_increasing) simp_all
  then have "\<not> 2 powi 1024 \<le> \<bar>(2 :: real) powi e\<bar>" by simp
  then show ?thesis
    unfolding round64_def exponent64_pow2 [OF assms] Let_def q round_even_of_int v
    by (simp only: if_False)
qed

text \<open>The cost over the real numbers, and the loss that an iteration of the loop records.\<close>

lemma cost_fn_nonneg_zero_iff:
  assumes "is_matrix n m Y_pred" and "is_matrix n m Y"
  shows "\<exists>L. cost_fn Y_pred Y = Some L \<and>
             L = (\<Sum>i<n. \<Sum>j<m. (Y_pred ! i ! j - Y ! i ! j)\<^sup>2) \<and>
             0 \<le> L \<and> (L = 0 \<longleftrightarrow> Y_pred = Y)"
proof -
  have pos: "0 < n" "0 < m" using assms(1) by (simp_all add: is_matrix_def)
  have "cost_fn (mk_matrix n m (entries Y_pred)) (mk_matrix n m (entries Y)) =
      Some (ref_loss n m (entries Y_pred) (entries Y))"
    by (rule cost_fn_mk [OF pos])
  then have c: "cost_fn Y_pred Y = Some (ref_loss n m (entries Y_pred) (entries Y))"
    by (simp only: entries_mk [OF assms(1), symmetric] entries_mk [OF assms(2), symmetric])
  have "(\<forall>i<n. \<forall>j<m. entries Y_pred i j = entries Y i j) \<longleftrightarrow> Y_pred = Y"
    using matrix_eqI [OF assms] by (auto simp: entries_def)
  then have "ref_loss n m (entries Y_pred) (entries Y) = 0 \<longleftrightarrow> Y_pred = Y"
    by (simp only: ref_loss_zero_iff)
  moreover have "ref_loss n m (entries Y_pred) (entries Y) =
      (\<Sum>i<n. \<Sum>j<m. (Y_pred ! i ! j - Y ! i ! j)\<^sup>2)"
    by (simp add: ref_loss_def entries_def)
  ultimately show ?thesis
    using c ref_loss_nonneg [of n m "entries Y_pred" "entries Y"] by simp
qed

lemma body_cost_fn:
  assumes "shapes n d k m s"
  shows "\<exists>h h_relu y_pred L s'.
     forward (x s) (w1 s) (w2 s) = Some (h, h_relu, y_pred) \<and> is_matrix n m y_pred \<and>
     cost_fn y_pred (y s) = Some L \<and> body t s = Some s' \<and> cost s' = cost s @ [L]"
proof -
  have a: "is_matrix n d (x s)" "is_matrix n m (y s)" "is_matrix d k (w1 s)" "is_matrix k m (w2 s)"
    using assms by (simp_all add: shapes_def)
  note pos = shapes_pos [OF assms]
  define P where "P = mk_matrix n m (ref_Y_pred d k (entries (x s)) (entries (w1 s)) (entries (w2 s)))"
  have f: "forward (x s) (w1 s) (w2 s) =
      Some (mk_matrix n k (ref_prod d (entries (x s)) (entries (w1 s))),
            mk_matrix n k (ref_relu (ref_prod d (entries (x s)) (entries (w1 s)))), P)"
    unfolding P_def by (rule forward_entries [OF a(1,3,4)])
  have P: "is_matrix n m P"
    unfolding P_def using pos by (simp add: mk_matrix_is_matrix)
  obtain s' L where b: "body t s = Some s'" "cost s' = cost s @ [L]"
    "training_loss (x s) (y s) (w1 s) (w2 s) = Some L"
    using body_is_gd_step [OF assms, of t] by blast
  have "cost_fn P (y s) = Some L"
    using b(3) unfolding training_loss_def f by simp
  with f P b(1,2) show ?thesis by blast
qed

text \<open>
  C7, as the code has it: the cost \<^verbatim>\<open>np.square(y_pred - y).sum()\<close> of a prediction
  and a target of the same shape \<open>n \<times> m\<close> sums the squared differences of all
  elements and divides by nothing. Computed over the real numbers it is never negative and it is 0 exactly
  when the prediction equals the target elementwise; this holds for cell 4 and for
  the loss that an iteration of the training loop computes from its forward pass and
  appends to \<open>cost\<close>. Computed in binary64 on arrays of finite numbers, whatever the
  order of the additions of the sum, it returns a number that is not NaN and not
  negative (it can be \<open>+inf\<close>); it is 0 when the prediction equals the target; and it
  is 0 exactly when the square of every rounded difference \<open>v\<close> underflows to 0,
  that is when \<open>v\<^sup>2\<close> is at most 2 to the power \<open>- 1075\<close>.
\<close>

theorem loss_nonneg_zero_iff:
  assumes "is_matrix n m Y_pred" and "is_matrix n m Y"
    and "shapes n' d' k' m' s"
    and "is_matrix n m P" and "is_matrix n m Q"
    and "list_all (list_all isfinite) P" and "list_all (list_all isfinite) Q"
  shows "(\<exists>L. cost_fn Y_pred Y = Some L \<and>
             L = (\<Sum>i<n. \<Sum>j<m. (Y_pred ! i ! j - Y ! i ! j)\<^sup>2) \<and>
             0 \<le> L \<and> (L = 0 \<longleftrightarrow> Y_pred = Y)) \<and>
    (\<exists>h h_relu y_pred L s'.
        forward (x s) (w1 s) (w2 s) = Some (h, h_relu, y_pred) \<and>
        cost_fn y_pred (y s) = Some L \<and> body t s = Some s' \<and> cost s' = cost s @ [L] \<and>
        L = (\<Sum>i<n'. \<Sum>j<m'. (y_pred ! i ! j - y s ! i ! j)\<^sup>2) \<and>
        0 \<le> L \<and> (L = 0 \<longleftrightarrow> y_pred = y s)) \<and>
    (\<exists>L. cost_fn64 P Q L) \<and>
    (\<forall>L. cost_fn64 P Q L \<longrightarrow>
        (L = PlusInf \<or> (\<exists>v\<ge>0. L = Finite v)) \<and>
        (P = Q \<longrightarrow> L = Finite 0) \<and>
        (L = Finite 0 \<longleftrightarrow>
           (\<forall>i<n. \<forall>j<m. \<exists>v. fsub (P ! i ! j) (Q ! i ! j) = Finite v \<and> v\<^sup>2 \<le> 2 powi (- 1075))))"
proof (intro conjI allI impI)
  show "\<exists>L. cost_fn Y_pred Y = Some L \<and>
             L = (\<Sum>i<n. \<Sum>j<m. (Y_pred ! i ! j - Y ! i ! j)\<^sup>2) \<and>
             0 \<le> L \<and> (L = 0 \<longleftrightarrow> Y_pred = Y)"
    by (rule cost_fn_nonneg_zero_iff [OF assms(1,2)])
  show "\<exists>h h_relu y_pred L s'.
        forward (x s) (w1 s) (w2 s) = Some (h, h_relu, y_pred) \<and>
        cost_fn y_pred (y s) = Some L \<and> body t s = Some s' \<and> cost s' = cost s @ [L] \<and>
        L = (\<Sum>i<n'. \<Sum>j<m'. (y_pred ! i ! j - y s ! i ! j)\<^sup>2) \<and>
        0 \<le> L \<and> (L = 0 \<longleftrightarrow> y_pred = y s)"
  proof -
    obtain h h_relu y_pred L s' where b:
      "forward (x s) (w1 s) (w2 s) = Some (h, h_relu, y_pred)" "is_matrix n' m' y_pred"
      "cost_fn y_pred (y s) = Some L" "body t s = Some s'" "cost s' = cost s @ [L]"
      using body_cost_fn [OF assms(3), of t] by blast
    have "is_matrix n' m' (y s)" using assms(3) by (simp add: shapes_def)
    from cost_fn_nonneg_zero_iff [OF b(2) this] b(3)
    have "L = (\<Sum>i<n'. \<Sum>j<m'. (y_pred ! i ! j - y s ! i ! j)\<^sup>2)" "0 \<le> L" "L = 0 \<longleftrightarrow> y_pred = y s"
      by auto
    with b show ?thesis by blast
  qed
  show "\<exists>L. cost_fn64 P Q L"
    by (rule cost_fn64_finite(1) [OF assms(4-7)])
  fix L assume L: "cost_fn64 P Q L"
  show "L = PlusInf \<or> (\<exists>v\<ge>0. L = Finite v)"
    by (rule cost_fn64_finite(2) [OF assms(4-7) L])
  show "L = Finite 0" if "P = Q"
    by (rule cost_fn64_finite(3) [OF assms(4-7) L that])
  show "L = Finite 0 \<longleftrightarrow>
     (\<forall>i<n. \<forall>j<m. \<exists>v. fsub (P ! i ! j) (Q ! i ! j) = Finite v \<and> v\<^sup>2 \<le> 2 powi (- 1075))"
    by (rule cost_fn64_finite(4) [OF assms(4-7) L])
qed

theorem loss_nonneg_zero_iff_witness:
  "is_matrix 1 2 [[2, 1 :: real]] \<and> is_matrix 1 2 [[0, 0 :: real]] \<and>
   shapes 1 2 3 1 \<lparr>x = [[1, 2]], y = [[0]], w1 = [[1, -1, -3], [0, 1 / 2, 1]], w2 = [[1], [1], [1]],
      learning_rate = 1 / 10, x_val = [[2, 1]], y_val = [[1]], cost = [], counter = [],
      cost_val = []\<rparr> \<and>
   is_matrix 1 2 [[Finite 2, Finite (2 powi (- 600))]] \<and> is_matrix 1 2 [[Finite 0, Finite 0]] \<and>
   list_all (list_all isfinite) [[Finite 2, Finite (2 powi (- 600))]] \<and>
   list_all (list_all isfinite) [[Finite 0, Finite 0]] \<and>
   cost_fn [[2, 1]] [[0, 0]] = Some 5 \<and>
   (\<exists>L. cost_fn [[2, 1]] [[0, 0]] = Some L \<and>
        L = (\<Sum>i<1. \<Sum>j<2. ([[2, 1]] ! i ! j - [[0, 0]] ! i ! j)\<^sup>2) \<and>
        0 \<le> L \<and> (L = 0 \<longleftrightarrow> [[2, 1 :: real]] = [[0, 0]])) \<and>
   (\<exists>s'. forward [[1, 2]] [[1, -1, -3], [0, 1 / 2, 1]] [[1], [1], [1]] =
          Some ([[1, 0, -1]], [[1, 0, 0]], [[1]]) \<and>
        cost_fn [[1]] [[0]] = Some 1 \<and>
        body 0 \<lparr>x = [[1, 2]], y = [[0]], w1 = [[1, -1, -3], [0, 1 / 2, 1]], w2 = [[1], [1], [1]],
          learning_rate = 1 / 10, x_val = [[2, 1]], y_val = [[1]], cost = [], counter = [],
          cost_val = []\<rparr> = Some s' \<and> cost s' = [1]) \<and>
   subtract64 [[Finite 2, Finite (2 powi (- 600))]] [[Finite 0, Finite 0]] =
     Some [[Finite 2, Finite (2 powi (- 600))]] \<and>
   square64 [[Finite 2, Finite (2 powi (- 600))]] = [[Finite 4, Finite 0]] \<and>
   cost_fn64 [[Finite 2, Finite (2 powi (- 600))]] [[Finite 0, Finite 0]] (Finite 4) \<and>
   \<not> (\<exists>L. cost_fn64 [[Finite 2, Finite (2 powi (- 600))]] [[Finite 0, Finite 0]] L \<and>
        \<not> ((L = PlusInf \<or> (\<exists>v\<ge>0. L = Finite v)) \<and>
           (L = Finite 0 \<longleftrightarrow>
              (\<forall>i<1. \<forall>j<2. \<exists>v. fsub ([[Finite 2, Finite (2 powi (- 600))]] ! i ! j)
                  ([[Finite 0, Finite 0]] ! i ! j) = Finite v \<and> v\<^sup>2 \<le> 2 powi (- 1075)))))"
proof -
  define p :: real where "p = 2 powi (- 600)"
  define s :: state where "s = \<lparr>x = [[1, 2]], y = [[0]], w1 = [[1, -1, -3], [0, 1 / 2, 1]],
      w2 = [[1], [1], [1]], learning_rate = 1 / 10, x_val = [[2, 1]], y_val = [[1]], cost = [],
      counter = [], cost_val = []\<rparr>"
  have sel: "x s = [[1, 2]]" "y s = [[0]]" "w1 s = [[1, -1, -3], [0, 1 / 2, 1]]"
    "w2 s = [[1], [1], [1]]" "cost s = []"
    by (simp_all add: s_def)
  have a: "is_matrix 1 2 [[2, 1 :: real]]" and b: "is_matrix 1 2 [[0, 0 :: real]]"
    and d: "is_matrix 1 2 [[Finite 2, Finite p]]" and e: "is_matrix 1 2 [[Finite 0, Finite 0]]"
    and f: "list_all (list_all isfinite) [[Finite 2, Finite p]]"
    and g: "list_all (list_all isfinite) [[Finite 0, Finite 0]]"
    by (simp_all add: is_matrix_def)
  have c: "shapes 1 2 3 1 s"
    by (simp add: s_def shapes_def is_matrix_def)
  have r2: "round64 2 = Finite 2"
    using round64_pow2 [of 1] by simp
  have r4: "round64 4 = Finite 4"
    using round64_pow2 [of 2] by simp
  have rp: "round64 p = Finite p"
    unfolding p_def by (rule round64_pow2) simp_all
  have "p * p = 2 powi (- 600 + - 600)"
    unfolding p_def by (rule power_int_add [symmetric]) simp
  also have "\<dots> \<le> 2 powi (- 1075)"
    by (intro power_int_increasing) simp_all
  finally have "p * p \<le> 2 powi (- 1075)" .
  moreover have "\<bar>p * p\<bar> = p * p" by (rule abs_of_nonneg) simp
  ultimately have "\<bar>p * p\<bar> \<le> 2 powi (- 1075)" by (simp only:)
  then have rpp: "round64 (p * p) = Finite 0"
    by (simp only: round64_zero_iff)
  have k1: "cost_fn [[2, 1]] [[0, 0]] = Some 5"
    by (simp add: cost_fn_def subtract_def shape_def nrows_def ncols_def square_def sum_all_def)
  have k2: "forward [[1, 2]] [[1, -1, -3], [0, 1 / 2, 1]] [[1], [1], [1]] =
     Some ([[1, 0, -1]], [[1, 0, 0]], [[1]])"
    by (simp add: forward_def dot_def mmul_def T_def inner_def maximum_def nrows_def ncols_def
        upt_rec Let_def)
  have k3: "cost_fn [[1]] [[0]] = Some 1"
    by (simp add: cost_fn_def subtract_def shape_def nrows_def ncols_def square_def sum_all_def)
  have k4: "subtract64 [[Finite 2, Finite p]] [[Finite 0, Finite 0]] = Some [[Finite 2, Finite p]]"
    by (simp add: subtract64_def shape_def nrows_def ncols_def r2 rp)
  have k5: "square64 [[Finite 2, Finite p]] = [[Finite 4, Finite 0]]"
    by (simp add: square64_def r4 rpp)
  have "sum64 ({#Finite 4#} + {#Finite 0#}) (fadd (Finite 4) (Finite 0))"
    by (intro sum64.add sum64.single)
  then have k6: "cost_fn64 [[Finite 2, Finite p]] [[Finite 0, Finite 0]] (Finite 4)"
    by (simp add: cost_fn64_def k4 k5 r4 add_mset_commute)
  note t = loss_nonneg_zero_iff [OF a b c d e f g, of 0]
  have t1: "\<exists>L. cost_fn [[2, 1]] [[0, 0]] = Some L \<and>
        L = (\<Sum>i<1. \<Sum>j<2. ([[2, 1]] ! i ! j - [[0, 0]] ! i ! j)\<^sup>2) \<and>
        0 \<le> L \<and> (L = 0 \<longleftrightarrow> [[2, 1 :: real]] = [[0, 0]])"
    by (rule conjunct1 [OF t])
  obtain h h_relu y_pred L s' where t2:
    "forward (x s) (w1 s) (w2 s) = Some (h, h_relu, y_pred)"
    "cost_fn y_pred (y s) = Some L" "body 0 s = Some s'" "cost s' = cost s @ [L]"
    using conjunct1 [OF conjunct2 [OF t]] by blast
  have yp: "y_pred = [[1]]" using t2(1) unfolding sel k2 by simp
  have "L = 1" using t2(2) unfolding sel yp k3 by simp
  then have k7: "\<exists>s'. forward [[1, 2]] [[1, -1, -3], [0, 1 / 2, 1]] [[1], [1], [1]] =
          Some ([[1, 0, -1]], [[1, 0, 0]], [[1]]) \<and>
        cost_fn [[1]] [[0]] = Some 1 \<and> body 0 s = Some s' \<and> cost s' = [1]"
    using k2 k3 t2(3,4) unfolding sel by simp
  have t4: "\<not> (\<exists>L. cost_fn64 [[Finite 2, Finite p]] [[Finite 0, Finite 0]] L \<and>
        \<not> ((L = PlusInf \<or> (\<exists>v\<ge>0. L = Finite v)) \<and>
           (L = Finite 0 \<longleftrightarrow>
              (\<forall>i<1. \<forall>j<2. \<exists>v. fsub ([[Finite 2, Finite p]] ! i ! j)
                  ([[Finite 0, Finite 0]] ! i ! j) = Finite v \<and> v\<^sup>2 \<le> 2 powi (- 1075)))))"
    using conjunct2 [OF conjunct2 [OF conjunct2 [OF t]]] by blast
  show ?thesis
    using a b c d e f g k1 t1 k7 k4 k5 k6 t4 unfolding s_def p_def by blast
qed

lemma sum64_NaN:
  assumes "sum64 A L" "\<forall>a\<in>#A. a = NaN"
  shows "(A = {#} \<and> L = Finite 0) \<or> (A \<noteq> {#} \<and> L = NaN)"
  using assms
proof (induction rule: sum64.induct)
  case empty
  show ?case by simp
next
  case (single v)
  then show ?case by simp
next
  case (add A a B b)
  have z: "round64 0 = Finite 0" by (simp add: round64_zero_iff)
  have "(A = {#} \<and> a = Finite 0) \<or> (A \<noteq> {#} \<and> a = NaN)"
    "(B = {#} \<and> b = Finite 0) \<or> (B \<noteq> {#} \<and> b = NaN)"
    using add.prems by (simp_all add: add.IH)
  then show ?case by (auto simp: z)
qed

text \<open>
  C7 as it is written fails for the cost that numpy computes, in binary64. The
  prediction \<open>[[2 powi (- 600)]]\<close> differs from the target \<open>[[0]]\<close>; their
  difference is \<open>2 powi (- 600)\<close>, its square \<open>2 powi (- 1200)\<close> is below half of the
  smallest positive binary64 number and is rounded to 0, and the cost is 0. And when the prediction and the
  target are both \<open>[[+inf]]\<close>, they are equal elementwise, their difference is NaN and
  the cost is NaN, which is neither 0 nor greater than or equal to 0.
\<close>

theorem loss_zero_underflow_counterexample:
  "[[Finite (2 powi (- 600))]] \<noteq> [[Finite 0]] \<and>
   subtract64 [[Finite (2 powi (- 600))]] [[Finite 0]] = Some [[Finite (2 powi (- 600))]] \<and>
   square64 [[Finite (2 powi (- 600))]] = [[Finite 0]] \<and>
   cost_fn64 [[Finite (2 powi (- 600))]] [[Finite 0]] (Finite 0) \<and>
   \<not> (\<exists>L. cost_fn64 [[Finite (2 powi (- 600))]] [[Finite 0]] L \<and> L \<noteq> Finite 0) \<and>
   subtract64 [[PlusInf]] [[PlusInf]] = Some [[NaN]] \<and>
   cost_fn64 [[PlusInf]] [[PlusInf]] NaN \<and>
   \<not> (\<exists>L. cost_fn64 [[PlusInf]] [[PlusInf]] L \<and> L \<noteq> NaN)"
proof -
  define p :: real where "p = 2 powi (- 600)"
  have pos: "0 < p" by (simp add: p_def)
  have rp: "round64 p = Finite p"
    unfolding p_def by (rule round64_pow2) simp_all
  have "p * p = 2 powi (- 600 + - 600)"
    unfolding p_def by (rule power_int_add [symmetric]) simp
  also have "\<dots> \<le> 2 powi (- 1075)"
    by (intro power_int_increasing) simp_all
  finally have "p * p \<le> 2 powi (- 1075)" .
  moreover have "\<bar>p * p\<bar> = p * p" by (rule abs_of_nonneg) simp
  ultimately have "\<bar>p * p\<bar> \<le> 2 powi (- 1075)" by (simp only:)
  then have rpp: "round64 (p * p) = Finite 0"
    by (simp only: round64_zero_iff)
  have 1: "[[Finite p]] \<noteq> [[Finite 0]]" using pos by simp
  have 2: "subtract64 [[Finite p]] [[Finite 0]] = Some [[Finite p]]"
    by (simp add: subtract64_def shape_def nrows_def ncols_def rp)
  have 3: "square64 [[Finite p]] = [[Finite 0]]"
    by (simp add: square64_def rpp)
  have c: "cost_fn64 [[Finite p]] [[Finite 0]] L \<longleftrightarrow> sum64 {#Finite 0#} L" for L
    by (simp add: cost_fn64_def 2 3)
  have 4: "cost_fn64 [[Finite p]] [[Finite 0]] (Finite 0)"
    unfolding c by (rule sum64.single)
  have 5: "L = Finite 0" if "cost_fn64 [[Finite p]] [[Finite 0]] L" for L
    using sum64_nonneg [OF that [unfolded c]] by simp
  have 6: "subtract64 [[PlusInf]] [[PlusInf]] = Some [[NaN]]"
    by (simp add: subtract64_def shape_def nrows_def ncols_def)
  have d: "cost_fn64 [[PlusInf]] [[PlusInf]] L \<longleftrightarrow> sum64 {#NaN#} L" for L
    by (simp add: cost_fn64_def 6 square64_def)
  have 7: "cost_fn64 [[PlusInf]] [[PlusInf]] NaN"
    unfolding d by (rule sum64.single)
  have 8: "L = NaN" if "cost_fn64 [[PlusInf]] [[PlusInf]] L" for L
    using sum64_NaN [OF that [unfolded d]] by simp
  show ?thesis
    using 1 2 3 4 5 6 7 8 unfolding p_def by blast
qed

end
